theory Spec2Isabelle
  imports Main "HOL-Library.Sublist"
begin

section \<open>Python string primitives used by the converter\<close>

text \<open>
  Strings are lists of characters.  The newline used by \<^verbatim>\<open>'\n'.join\<close> and
  \<^verbatim>\<open>split('\n')\<close> is the character with code 10.
\<close>

definition nl :: string where
  "nl = [CHR 0x0A]"

text \<open>\<^verbatim>\<open>sep.join(parts)\<close>.\<close>

fun join_str :: "string \<Rightarrow> string list \<Rightarrow> string" where
  "join_str sep [] = []"
| "join_str sep [p] = p"
| "join_str sep (p # q # ps) = p @ sep @ join_str sep (q # ps)"

text \<open>\<^verbatim>\<open>s.split(c)\<close> for a one-character separator: never the empty list.\<close>

fun split_on :: "char \<Rightarrow> string \<Rightarrow> string list" where
  "split_on c [] = [[]]"
| "split_on c (x # xs) =
     (if x = c then [] # split_on c xs
      else (case split_on c xs of
              w # ws \<Rightarrow> (x # w) # ws
            | [] \<Rightarrow> [[x]]))"

section \<open>List Builder: \<^verbatim>\<open>_create_list_html\<close> and \<^verbatim>\<open>_build_nested_list\<close>\<close>

datatype list_kind = Bullet | Number

text \<open>A list item is the tuple \<^verbatim>\<open>(level, list_type, text)\<close>; levels are Python ints.\<close>

type_synonym list_item = "int \<times> list_kind \<times> string"

text \<open>
  \<^verbatim>\<open>'ul' if current_list_type == 'bullet' else 'ol'\<close>, where the variable may still
  be \<^verbatim>\<open>None\<close>.
\<close>

definition tag_of :: "list_kind option \<Rightarrow> string" where
  "tag_of t = (if t = Some Bullet then ''ul'' else ''ol'')"

text \<open>
  The closing step shared by the two exits of the loop:
  \<^verbatim>\<open>if list_started and current_list_type: html_parts.append(f'</{tag}>')\<close>.
\<close>

definition close_started :: "string list \<Rightarrow> bool \<Rightarrow> list_kind option \<Rightarrow> string list" where
  "close_started html_parts list_started current_list_type =
     (if list_started \<and> current_list_type \<noteq> None
      then html_parts @ [''</'' @ tag_of current_list_type @ ''>'']
      else html_parts)"

text \<open>\<^verbatim>\<open>'\n'.join('    ' + line for line in nested_html.split('\n'))\<close>.\<close>

definition indent_nested :: "string \<Rightarrow> string" where
  "indent_nested nested_html =
     join_str nl (map (\<lambda>line. ''    '' @ line) (split_on (CHR 0x0A) nested_html))"

text \<open>
  Opening a list at the current level: nothing is open yet
  (\<^verbatim>\<open>if not list_started\<close>), or the open list has another type
  (\<^verbatim>\<open>elif current_list_type != item_type\<close>: close the old tag, open the new one),
  or the open list is continued.
\<close>

definition open_parts ::
  "string list \<Rightarrow> bool \<Rightarrow> list_kind option \<Rightarrow> list_kind \<Rightarrow> string list" where
  "open_parts html_parts list_started current_list_type item_type =
     (if \<not> list_started then html_parts @ [''<'' @ tag_of (Some item_type) @ ''>'']
      else if current_list_type \<noteq> Some item_type then
        html_parts @ [''</'' @ tag_of current_list_type @ ''>'',
                      ''<'' @ tag_of (Some item_type) @ ''>'']
      else html_parts)"

definition open_type :: "bool \<Rightarrow> list_kind option \<Rightarrow> list_kind \<Rightarrow> list_kind option" where
  "open_type list_started current_list_type item_type =
     (if \<not> list_started then Some item_type
      else if current_list_type \<noteq> Some item_type then Some item_type
      else current_list_type)"

definition item_level :: "list_item \<Rightarrow> int" where
  "item_level it = fst it"

definition item_type :: "list_item \<Rightarrow> list_kind" where
  "item_type it = fst (snd it)"

definition item_text :: "list_item \<Rightarrow> string" where
  "item_text it = snd (snd it)"

text \<open>
  The \<^verbatim>\<open>while i < len(items)\<close> loop of \<^verbatim>\<open>_build_nested_list\<close>, with its local
  variables as arguments.  The recursive call of the source is made with
  \<^verbatim>\<open>i + 1 < len(items)\<close>, so its entry guard is false and it starts the loop of
  the nested frame with fresh locals; its result is the pair
  \<^verbatim>\<open>(nested_html, next_i)\<close>.
\<close>

function build_loop ::
  "list_item list \<Rightarrow> int \<Rightarrow> nat \<Rightarrow> string list \<Rightarrow> list_kind option \<Rightarrow> bool \<Rightarrow> string \<times> nat"
where
  "build_loop items current_level i html_parts current_list_type list_started =
     (if i < length items then
        if item_level (items ! i) < current_level then
          (join_str nl (close_started html_parts list_started current_list_type), i)
        else if item_level (items ! i) = current_level then
          if i + 1 < length items \<and> item_level (items ! (i + 1)) > item_level (items ! i) then
            build_loop items current_level
              (snd (build_loop items (item_level (items ! (i + 1))) (i + 1) [] None False))
              (open_parts html_parts list_started current_list_type (item_type (items ! i)) @
                 [''  <li>'' @ item_text (items ! i),
                  indent_nested
                    (fst (build_loop items (item_level (items ! (i + 1))) (i + 1) [] None False)),
                  ''  </li>''])
              (open_type list_started current_list_type (item_type (items ! i))) True
          else
            build_loop items current_level (i + 1)
              (open_parts html_parts list_started current_list_type (item_type (items ! i)) @
                 [''  <li>'' @ item_text (items ! i) @ ''</li>''])
              (open_type list_started current_list_type (item_type (items ! i))) True
        else
          (join_str nl (close_started html_parts list_started current_list_type), i)
      else (join_str nl (close_started html_parts list_started current_list_type), i))"
  by pat_completeness auto

text \<open>
  Every frame returns an index at or after the one it was entered with; this is what
  makes the loop of the calling frame advance after a nested call.
\<close>

lemma build_loop_dom_ge:
  "build_loop_dom (items, current_level, i, html_parts, current_list_type, list_started) \<Longrightarrow>
   i \<le> snd (build_loop items current_level i html_parts current_list_type list_started)"
proof (induct items current_level i html_parts current_list_type list_started
       rule: build_loop.pinduct)
  case (1 items current_level i html_parts current_list_type list_started)
  show ?case
    apply (subst build_loop.psimps[OF 1(1)])
    using 1(2-)
    apply (auto split: prod.splits if_splits)
    done
qed

lemma build_loop_total: "All build_loop_dom"
  apply (relation "measure (\<lambda>(items, current_level, i, html_parts, current_list_type,
                     list_started). length items - i)")
  apply (auto dest!: build_loop_dom_ge)
  done

termination build_loop
  by (rule build_loop_total)

declare build_loop.simps [simp del]

text \<open>\<^verbatim>\<open>_build_nested_list(items, start_index, current_level)\<close>.\<close>

definition build_nested_list :: "list_item list \<Rightarrow> nat \<Rightarrow> int \<Rightarrow> string \<times> nat" where
  "build_nested_list items start_index current_level =
     (if start_index \<ge> length items then ([], start_index)
      else build_loop items current_level start_index [] None False)"

text \<open>
  \<^verbatim>\<open>_create_list_html(items, list_type)\<close>; the second argument is not used by the
  source.  \<^verbatim>\<open>min(item[0] for item in items)\<close> is a left-to-right scan.
\<close>

definition min_level :: "list_item \<Rightarrow> list_item list \<Rightarrow> int" where
  "min_level it rest = fold min (map item_level rest) (item_level it)"

definition create_list_html :: "list_item list \<Rightarrow> string" where
  "create_list_html items =
     (case items of
        [] \<Rightarrow> []
      | it # rest \<Rightarrow> fst (build_nested_list items 0 (min_level it rest)))"

section \<open>Inline text: escaping and trimming\<close>

text \<open>
  \<^verbatim>\<open>s.replace(old, new)\<close>: occurrences are replaced from left to right without
  overlap; for the empty \<^verbatim>\<open>old\<close> Python puts \<^verbatim>\<open>new\<close> before every character
  and at the end.
\<close>

function replace_from :: "string \<Rightarrow> string \<Rightarrow> string \<Rightarrow> string" where
  "replace_from old new [] = []"
| "replace_from old new (c # cs) =
     (if old \<noteq> [] \<and> prefix old (c # cs)
      then new @ replace_from old new (drop (length old) (c # cs))
      else c # replace_from old new cs)"
  by pat_completeness auto
termination
  by (relation "measure (\<lambda>(old, new, s). length s)") (auto simp: neq_Nil_conv)

definition str_replace :: "string \<Rightarrow> string \<Rightarrow> string \<Rightarrow> string" where
  "str_replace old new s =
     (if old = [] then new @ concat (map (\<lambda>c. c # new) s) else replace_from old new s)"

text \<open>
  \<^verbatim>\<open>_escape_html\<close>: the dictionary is walked in insertion order, so the ampersand
  is replaced first.
\<close>

definition escape_html :: "string \<Rightarrow> string" where
  "escape_html text =
     str_replace [CHR 0x27] ''&#39;''
       (str_replace [CHR 0x22] ''&quot;''
          (str_replace ''>'' ''&gt;''
             (str_replace ''<'' ''&lt;''
                (str_replace ''&'' ''&amp;'' text))))"

text \<open>
  The whitespace of \<^verbatim>\<open>str.strip()\<close>, \<^verbatim>\<open>str.split()\<close> and the regular
  expression class \<^verbatim>\<open>\s\<close>, among the characters with codes below 256: tab, line
  feed, vertical tab, form feed, carriage return, the four separators 28 to 31, the
  space, the next-line character 133 and the no-break space 160.
\<close>

definition is_space :: "char \<Rightarrow> bool" where
  "is_space c = (c \<in> set [CHR 0x09, CHR 0x0A, CHR 0x0B, CHR 0x0C, CHR 0x0D,
                            CHR 0x1C, CHR 0x1D, CHR 0x1E, CHR 0x1F, CHR 0x20,
                            CHR 0x85, CHR 0xA0])"

definition strip :: "string \<Rightarrow> string" where
  "strip s = rev (dropWhile is_space (rev (dropWhile is_space s)))"

section \<open>Run Consolidator: \<^verbatim>\<open>_process_runs\<close>\<close>

text \<open>
  An XML element is known by its identity.  A run of \<^verbatim>\<open>paragraph.runs\<close> carries its
  element, its text and the three tri-state formatting properties of python-docx
  (\<^verbatim>\<open>None\<close>, \<^verbatim>\<open>True\<close>, \<^verbatim>\<open>False\<close>), read by the source through \<^verbatim>\<open>bool(...)\<close>.
\<close>

type_synonym elem = nat

record run =
  run_elem :: elem
  run_text :: string
  run_bold :: "bool option"
  run_italic :: "bool option"
  run_underline :: "bool option"

definition py_bool :: "bool option \<Rightarrow> bool" where
  "py_bool b = (b = Some True)"

text \<open>
  An extracted hyperlink is the tuple \<^verbatim>\<open>(link_id, link_url, link_runs, link_text)\<close>;
  the walk remembers a run's hyperlink as \<^verbatim>\<open>(link_id, link_url, link_text)\<close>.
\<close>

type_synonym hyperlink = "string \<times> string \<times> elem list \<times> string"

type_synonym link_ref = "string \<times> string \<times> string"

definition link_id :: "hyperlink \<Rightarrow> string" where
  "link_id h = fst h"

definition link_url :: "hyperlink \<Rightarrow> string" where
  "link_url h = fst (snd h)"

definition link_runs :: "hyperlink \<Rightarrow> elem list" where
  "link_runs h = fst (snd (snd h))"

definition link_text :: "hyperlink \<Rightarrow> string" where
  "link_text h = snd (snd (snd h))"

text \<open>\<^verbatim>\<open>_format_link(url, text)\<close>.\<close>

definition format_link :: "string \<Rightarrow> string \<Rightarrow> string" where
  "format_link url text = ''<a href=\"'' @ url @ ''\">'' @ text @ ''</a>''"

text \<open>
  The inner \<^verbatim>\<open>for ... in hyperlinks\<close> of the walk: the first hyperlink whose run
  elements contain the element of the run.
\<close>

fun find_run_hyperlink :: "hyperlink list \<Rightarrow> elem \<Rightarrow> link_ref option" where
  "find_run_hyperlink [] e = None"
| "find_run_hyperlink (h # hs) e =
     (if e \<in> set (link_runs h) then Some (link_id h, link_url h, link_text h)
      else find_run_hyperlink hs e)"

text \<open>The local variables of \<^verbatim>\<open>_process_runs\<close>, with \<^verbatim>\<open>current_group\<close> flattened.\<close>

record walk =
  result :: "string list"
  current_hyperlink :: "link_ref option"
  hyperlink_text :: "string list"
  processed_hyperlinks :: "string set"
  group_text :: "string list"
  group_bold :: "bool option"
  group_italic :: "bool option"
  group_underline :: "bool option"
  group_hyperlink :: "link_ref option"

definition init_walk :: walk where
  "init_walk = \<lparr>result = [], current_hyperlink = None, hyperlink_text = [],
                 processed_hyperlinks = {}, group_text = [], group_bold = None,
                 group_italic = None, group_underline = None, group_hyperlink = None\<rparr>"

text \<open>The tags of \<^verbatim>\<open>flush_group\<close>: underline innermost, then italic, then bold.\<close>

definition format_text :: "bool option \<Rightarrow> bool option \<Rightarrow> bool option \<Rightarrow> string \<Rightarrow> string" where
  "format_text bold italic underline combined_text =
     (let t1 = (if py_bool underline then ''<u>'' @ combined_text @ ''</u>'' else combined_text);
          t2 = (if py_bool italic then ''<em>'' @ t1 @ ''</em>'' else t1)
      in if py_bool bold then ''<strong>'' @ t2 @ ''</strong>'' else t2)"

definition flush_group :: "walk \<Rightarrow> walk" where
  "flush_group w =
     (if group_text w = [] then w
      else
        (let formatted_text =
               format_text (group_bold w) (group_italic w) (group_underline w)
                 (concat (group_text w))
         in (if group_hyperlink w \<noteq> None
             then w\<lparr>hyperlink_text := hyperlink_text w @ [formatted_text], group_text := []\<rparr>
             else w\<lparr>result := result w @ [formatted_text], group_text := []\<rparr>)))"

text \<open>
  Closing the open hyperlink, as written three times in the source: the collected inner
  text if the list \<^verbatim>\<open>hyperlink_text\<close> is not empty, else the fallback text, else the URL.
\<close>

definition closed_link :: "link_ref \<Rightarrow> string list \<Rightarrow> string" where
  "closed_link cur htext =
     (case cur of (lid, url, ltext) \<Rightarrow>
        if htext \<noteq> [] then format_link url (concat htext)
        else format_link url (if ltext \<noteq> [] then ltext else url))"

definition close_hyperlink :: "walk \<Rightarrow> walk" where
  "close_hyperlink w =
     (case current_hyperlink w of
        None \<Rightarrow> w
      | Some cur \<Rightarrow>
          w\<lparr>result := result w @ [closed_link cur (hyperlink_text w)], hyperlink_text := []\<rparr>)"

text \<open>One iteration of \<^verbatim>\<open>for run in paragraph.runs\<close>.\<close>

definition process_run :: "hyperlink list \<Rightarrow> walk \<Rightarrow> run \<Rightarrow> walk" where
  "process_run hyperlinks w0 r =
     (let text = run_text r;
          run_hyperlink = find_run_hyperlink hyperlinks (run_elem r);
          w = (case run_hyperlink of
                 None \<Rightarrow> w0
               | Some (lid, url, ltext) \<Rightarrow>
                   w0\<lparr>processed_hyperlinks := insert lid (processed_hyperlinks w0)\<rparr>)
      in if text = [] \<and> run_hyperlink = None then w
         else
           (let w1 = (if run_hyperlink \<noteq> None \<and> run_hyperlink \<noteq> current_hyperlink w
                      then (close_hyperlink (flush_group w))\<lparr>current_hyperlink := run_hyperlink\<rparr>
                      else if run_hyperlink = None \<and> current_hyperlink w \<noteq> None
                      then (close_hyperlink (flush_group w))\<lparr>current_hyperlink := None\<rparr>
                      else w);
                escaped_text = (if text = [] \<and> run_hyperlink \<noteq> None then []
                                else escape_html text);
                bold = py_bool (run_bold r);
                italic = py_bool (run_italic r);
                underline = (py_bool (run_underline r) \<and> run_hyperlink = None);
                formatting_matches =
                  (group_bold w1 = Some bold \<and> group_italic w1 = Some italic \<and>
                   group_underline w1 = Some underline \<and> group_hyperlink w1 = run_hyperlink);
                w2 = (if \<not> formatting_matches \<and> group_text w1 \<noteq> [] then flush_group w1
                      else w1);
                w3 = (if group_text w2 = []
                      then w2\<lparr>group_bold := Some bold, group_italic := Some italic,
                              group_underline := Some underline,
                              group_hyperlink := run_hyperlink\<rparr>
                      else w2)
            in w3\<lparr>group_text := group_text w3 @ [escaped_text]\<rparr>))"

fun walk_runs :: "hyperlink list \<Rightarrow> walk \<Rightarrow> run list \<Rightarrow> walk" where
  "walk_runs hyperlinks w [] = w"
| "walk_runs hyperlinks w (r # rs) = walk_runs hyperlinks (process_run hyperlinks w r) rs"

text \<open>
  The last loop: every hyperlink whose id was not marked during the walk and whose
  fallback text is not empty is appended after a space.
\<close>

definition unprocessed_links :: "hyperlink list \<Rightarrow> string set \<Rightarrow> string list" where
  "unprocessed_links hyperlinks processed =
     concat (map (\<lambda>h. if link_id h \<notin> processed \<and> link_text h \<noteq> []
                       then ['' '', format_link (link_url h) (link_text h)] else [])
                 hyperlinks)"

text \<open>
  \<^verbatim>\<open>_process_runs\<close> after the call of \<^verbatim>\<open>_extract_hyperlinks\<close>: the walk, the last
  flush, the closing of a hyperlink that is still open, and the unprocessed hyperlinks.
\<close>

definition consolidate_runs :: "hyperlink list \<Rightarrow> run list \<Rightarrow> string" where
  "consolidate_runs hyperlinks runs =
     (let w = close_hyperlink (flush_group (walk_runs hyperlinks init_walk runs))
      in concat (result w @ unprocessed_links hyperlinks (processed_hyperlinks w)))"

section \<open>Hyperlink Extractor: \<^verbatim>\<open>_extract_hyperlinks\<close> and \<^verbatim>\<open>_extract_field_hyperlinks\<close>\<close>

text \<open>
  What the extractor reads of a \<^verbatim>\<open>w:hyperlink\<close> element: the attributes \<^verbatim>\<open>r:id\<close>
  and \<^verbatim>\<open>w:anchor\<close> (\<^verbatim>\<open>None\<close> when absent), the run elements below it, and its
  own text.
\<close>

record hyperlink_element =
  hl_r_id :: "string option"
  hl_anchor :: "string option"
  hl_run_elements :: "elem list"
  hl_text :: "string option"

text \<open>
  What the extractor reads of a \<^verbatim>\<open>w:r\<close> element: the \<^verbatim>\<open>fldCharType\<close> of its first
  \<^verbatim>\<open>fldChar\<close> (\<^verbatim>\<open>None\<close> when there is no \<^verbatim>\<open>fldChar\<close> or no such attribute; the
  source treats both alike), the text of its first \<^verbatim>\<open>instrText\<close>, and the texts of its
  \<^verbatim>\<open>t\<close> elements (a missing text counts as empty).
\<close>

record xml_run =
  x_elem :: elem
  x_fld_char_type :: "string option"
  x_instr_text :: "string option"
  x_t_texts :: "string list"

text \<open>Truth value of an optional string: \<^verbatim>\<open>None\<close> and the empty string are false.\<close>

definition str_truthy :: "string option \<Rightarrow> bool" where
  "str_truthy s = (case s of None \<Rightarrow> False | Some t \<Rightarrow> t \<noteq> [])"

text \<open>An optional string inside an f-string.\<close>

definition py_format :: "string option \<Rightarrow> string" where
  "py_format s = (case s of None \<Rightarrow> ''None'' | Some t \<Rightarrow> t)"

text \<open>\<^verbatim>\<open>str(n)\<close> for a natural number.\<close>

fun show_nat :: "nat \<Rightarrow> string" where
  "show_nat n =
     (if n < 10 then [char_of (48 + n)]
      else show_nat (n div 10) @ [char_of (48 + n mod 10)])"

declare show_nat.simps [simp del]

text \<open>
  Method 1, the loop over \<^verbatim>\<open>enumerate(hyperlink_elements)\<close>.  The relationship
  lookup \<^verbatim>\<open>paragraph.part.rels[r_id].target_ref\<close> is the function \<open>rels\<close>; a lookup that
  raises is caught by the source and gives \<^verbatim>\<open>None\<close>.
\<close>

fun wrapper_hyperlinks ::
  "(string \<Rightarrow> string option) \<Rightarrow> nat \<Rightarrow> hyperlink_element list \<Rightarrow> hyperlink list" where
  "wrapper_hyperlinks rels idx [] = []"
| "wrapper_hyperlinks rels idx (h # hs) =
     (let r_id = hl_r_id h;
          anchor = hl_anchor h;
          url0 = (case r_id of None \<Rightarrow> None | Some r \<Rightarrow> if r \<noteq> [] then rels r else None);
          url = (if \<not> str_truthy url0 \<and> str_truthy anchor
                 then Some (''#'' @ py_format anchor) else url0)
      in (if str_truthy url
          then [(py_format (if str_truthy r_id then r_id else anchor) @ ''_'' @ show_nat idx,
                 py_format url, hl_run_elements h,
                 (if str_truthy (hl_text h) then py_format (hl_text h) else []))]
          else [])
         @ wrapper_hyperlinks rels (idx + 1) hs)"

text \<open>
  \<^verbatim>\<open>re.search(r'HYPERLINK\s+"([^"]+)"', instr_text)\<close>: the match tried at the head
  of a string, and the leftmost match in a string; the value is group 1.
\<close>

definition match_hyperlink :: "string \<Rightarrow> string option" where
  "match_hyperlink s =
     (if prefix ''HYPERLINK'' s then
        (let r = drop 9 s in
         if takeWhile is_space r = [] then None
         else (case dropWhile is_space r of
                 [] \<Rightarrow> None
               | c # r3 \<Rightarrow>
                   if c = CHR 0x22 \<and> takeWhile (\<lambda>x. x \<noteq> CHR 0x22) r3 \<noteq> []
                      \<and> dropWhile (\<lambda>x. x \<noteq> CHR 0x22) r3 \<noteq> []
                   then Some (takeWhile (\<lambda>x. x \<noteq> CHR 0x22) r3)
                   else None))
      else None)"

fun search_hyperlink :: "string \<Rightarrow> string option" where
  "search_hyperlink [] = None"
| "search_hyperlink (c # cs) =
     (case match_hyperlink (c # cs) of
        Some u \<Rightarrow> Some u
      | None \<Rightarrow> search_hyperlink cs)"

text \<open>
  A run whose instruction text is not empty and, stripped, starts with
  \<^verbatim>\<open>HYPERLINK\<close>: the first loop stops at it.
\<close>

definition is_hyperlink_instr :: "xml_run \<Rightarrow> bool" where
  "is_hyperlink_instr r =
     (case x_instr_text r of
        None \<Rightarrow> False
      | Some t \<Rightarrow> t \<noteq> [] \<and> prefix ''HYPERLINK'' (strip t))"

text \<open>
  The first inner loop (\<^verbatim>\<open>Look for the HYPERLINK instruction\<close>): it returns the URL,
  if one was found, and the index \<^verbatim>\<open>j\<close> at which it stopped.
\<close>

function find_instruction :: "xml_run list \<Rightarrow> nat \<Rightarrow> string option \<times> nat" where
  "find_instruction all_runs j =
     (if j < length all_runs then
        if is_hyperlink_instr (all_runs ! j)
        then (search_hyperlink (strip (py_format (x_instr_text (all_runs ! j)))), j)
        else if x_fld_char_type (all_runs ! j) = Some ''separate''
                \<or> x_fld_char_type (all_runs ! j) = Some ''end''
        then (None, j)
        else find_instruction all_runs (j + 1)
      else (None, j))"
  by pat_completeness auto
termination
  by (relation "measure (\<lambda>(all_runs, j). length all_runs - j)") auto

declare find_instruction.simps [simp del]

text \<open>The second inner loop: up to and past the next \<^verbatim>\<open>separate\<close> marker.\<close>

function skip_separator :: "xml_run list \<Rightarrow> nat \<Rightarrow> nat" where
  "skip_separator all_runs j =
     (if j < length all_runs then
        if x_fld_char_type (all_runs ! j) = Some ''separate'' then j + 1
        else skip_separator all_runs (j + 1)
      else j)"
  by pat_completeness auto
termination
  by (relation "measure (\<lambda>(all_runs, j). length all_runs - j)") auto

declare skip_separator.simps [simp del]

text \<open>The third inner loop: the runs up to the next \<^verbatim>\<open>end\<close> marker.\<close>

function collect_link_runs :: "xml_run list \<Rightarrow> nat \<Rightarrow> xml_run list \<Rightarrow> xml_run list \<times> nat" where
  "collect_link_runs all_runs j lruns =
     (if j < length all_runs then
        if x_fld_char_type (all_runs ! j) = Some ''end'' then (lruns, j)
        else collect_link_runs all_runs (j + 1) (lruns @ [all_runs ! j])
      else (lruns, j))"
  by pat_completeness auto
termination
  by (relation "measure (\<lambda>(all_runs, j, lruns). length all_runs - j)") auto

declare collect_link_runs.simps [simp del]

lemma find_instruction_ge: "j \<le> snd (find_instruction all_runs j)"
  by (induction all_runs j rule: find_instruction.induct)
     (subst find_instruction.simps, auto)

lemma skip_separator_ge: "j \<le> skip_separator all_runs j"
  by (induction all_runs j rule: skip_separator.induct)
     (subst skip_separator.simps, auto)

lemma collect_link_runs_ge: "j \<le> snd (collect_link_runs all_runs j lruns)"
  by (induction all_runs j lruns rule: collect_link_runs.induct)
     (subst collect_link_runs.simps, auto)

text \<open>
  For a field that begins at index \<open>i\<close>: the URL found by the first loop, the index where
  the second loop stops, and the result of the third loop.
\<close>

definition field_url :: "xml_run list \<Rightarrow> nat \<Rightarrow> string option" where
  "field_url all_runs i = fst (find_instruction all_runs (i + 1))"

definition field_members :: "xml_run list \<Rightarrow> nat \<Rightarrow> xml_run list \<times> nat" where
  "field_members all_runs i =
     collect_link_runs all_runs
       (skip_separator all_runs (snd (find_instruction all_runs (i + 1)))) []"

text \<open>The span a field contributes when it has a URL and member runs.\<close>

definition field_span :: "nat \<Rightarrow> string \<Rightarrow> xml_run list \<Rightarrow> hyperlink" where
  "field_span field_idx url lruns =
     (''field_'' @ show_nat field_idx, url, map x_elem lruns,
      concat (map (\<lambda>r. concat (x_t_texts r)) lruns))"

text \<open>The outer loop \<^verbatim>\<open>while i < len(all_runs)\<close> of \<^verbatim>\<open>_extract_field_hyperlinks\<close>.\<close>

function field_loop :: "xml_run list \<Rightarrow> nat \<Rightarrow> nat \<Rightarrow> hyperlink list \<Rightarrow> hyperlink list" where
  "field_loop all_runs i field_idx hyperlinks =
     (if i < length all_runs then
        if x_fld_char_type (all_runs ! i) = Some ''begin'' then
          if str_truthy (field_url all_runs i) then
            if fst (field_members all_runs i) \<noteq> [] then
              field_loop all_runs (snd (field_members all_runs i) + 1) (field_idx + 1)
                (hyperlinks @
                   [field_span field_idx (py_format (field_url all_runs i))
                      (fst (field_members all_runs i))])
            else
              field_loop all_runs (snd (field_members all_runs i) + 1) field_idx hyperlinks
          else field_loop all_runs (i + 1) field_idx hyperlinks
        else field_loop all_runs (i + 1) field_idx hyperlinks
      else hyperlinks)"
  by pat_completeness auto

lemma field_members_gt: "i < snd (field_members all_runs i)"
proof -
  have "i + 1 \<le> snd (find_instruction all_runs (i + 1))"
    by (rule find_instruction_ge)
  also have "\<dots> \<le> skip_separator all_runs (snd (find_instruction all_runs (i + 1)))"
    by (rule skip_separator_ge)
  also have "\<dots> \<le> snd (field_members all_runs i)"
    unfolding field_members_def by (rule collect_link_runs_ge)
  finally show ?thesis by simp
qed

termination field_loop
proof (relation "measure (\<lambda>(all_runs, i, field_idx, hyperlinks). length all_runs - i)")
  fix all_runs :: "xml_run list" and i field_idx :: nat and hyperlinks :: "hyperlink list"
  assume "i < length all_runs"
  moreover have "i < snd (field_members all_runs i)"
    by (rule field_members_gt)
  ultimately
  show "((all_runs, snd (field_members all_runs i) + 1, field_idx + 1,
          hyperlinks @ [field_span field_idx (py_format (field_url all_runs i))
                          (fst (field_members all_runs i))]),
         all_runs, i, field_idx, hyperlinks)
        \<in> measure (\<lambda>(all_runs, i, field_idx, hyperlinks). length all_runs - i)"
    and "((all_runs, snd (field_members all_runs i) + 1, field_idx, hyperlinks),
         all_runs, i, field_idx, hyperlinks)
        \<in> measure (\<lambda>(all_runs, i, field_idx, hyperlinks). length all_runs - i)"
    by auto
qed auto

declare field_loop.simps [simp del]

definition extract_field_hyperlinks :: "xml_run list \<Rightarrow> hyperlink list" where
  "extract_field_hyperlinks all_runs = field_loop all_runs 0 0 []"

section \<open>Paragraphs and list detection: \<^verbatim>\<open>_get_list_info\<close>\<close>

text \<open>
  The \<^verbatim>\<open>numPr\<close> element of a paragraph as far as the source reads it: the
  \<^verbatim>\<open>ilvl\<close> child (absent; present without \<^verbatim>\<open>val\<close>; present with \<^verbatim>\<open>val\<close>) and
  whether there is a \<^verbatim>\<open>numId\<close> child.
\<close>

record numPr =
  np_ilvl :: "string option option"
  np_numId :: bool

text \<open>
  A paragraph as python-docx hands it over: the style name, \<^verbatim>\<open>paragraph.text\<close>, the
  \<^verbatim>\<open>numPr\<close> of its properties (\<^verbatim>\<open>None\<close> when there is no \<^verbatim>\<open>pPr\<close> or no \<^verbatim>\<open>numPr\<close>
  below it), \<^verbatim>\<open>paragraph.runs\<close>, the \<^verbatim>\<open>w:hyperlink\<close> elements, the relationship
  lookup, and all \<^verbatim>\<open>w:r\<close> elements of the paragraph in document order.
\<close>

record docx_paragraph =
  p_style_name :: string
  p_text :: string
  p_numPr :: "numPr option"
  p_runs :: "run list"
  p_hyperlink_elements :: "hyperlink_element list"
  p_rels :: "string \<Rightarrow> string option"
  p_all_runs :: "xml_run list"

definition extract_hyperlinks :: "docx_paragraph \<Rightarrow> hyperlink list" where
  "extract_hyperlinks p =
     wrapper_hyperlinks (p_rels p) 0 (p_hyperlink_elements p)
     @ extract_field_hyperlinks (p_all_runs p)"

definition process_runs :: "docx_paragraph \<Rightarrow> string" where
  "process_runs p = consolidate_runs (extract_hyperlinks p) (p_runs p)"

text \<open>The exceptions of the modelled code.\<close>

datatype py_error = ValueError | ReError

text \<open>
  \<^verbatim>\<open>int(s)\<close> on a string, for ASCII input: surrounding whitespace, an optional sign,
  and decimal digits that may be separated by single underscores.  \<^verbatim>\<open>None\<close> stands
  for the \<^verbatim>\<open>ValueError\<close>.
\<close>

definition is_digit :: "char \<Rightarrow> bool" where
  "is_digit c = (c \<in> set ''0123456789'')"

definition digits_value :: "string \<Rightarrow> nat" where
  "digits_value ds = foldl (\<lambda>a c. 10 * a + (of_char c - 48)) 0 ds"

fun int_body_ok :: "string \<Rightarrow> bool" where
  "int_body_ok [] = False"
| "int_body_ok [c] = is_digit c"
| "int_body_ok (c # d # cs) =
     (is_digit c \<and> (if d = CHR ''_'' then int_body_ok cs else int_body_ok (d # cs)))"

definition py_int :: "string \<Rightarrow> int option" where
  "py_int s =
     (case strip s of
        [] \<Rightarrow> None
      | c # cs \<Rightarrow>
          if c = CHR ''-'' then
            (if int_body_ok cs then Some (- int (digits_value (filter is_digit cs))) else None)
          else if c = CHR ''+'' then
            (if int_body_ok cs then Some (int (digits_value (filter is_digit cs))) else None)
          else
            (if int_body_ok (c # cs) then Some (int (digits_value (filter is_digit (c # cs))))
             else None))"

text \<open>
  \<^verbatim>\<open>sub in s\<close> for strings, and \<^verbatim>\<open>s.lower()\<close>: among the characters with codes
  below 256 the capital letters are \<open>A\<close> to \<open>Z\<close> and the codes 192 to 222 without the
  multiplication sign 215, and each has its small letter 32 codes above it.
\<close>

fun contains :: "string \<Rightarrow> string \<Rightarrow> bool" where
  "contains sub [] = (sub = [])"
| "contains sub (c # cs) = (prefix sub (c # cs) \<or> contains sub cs)"

definition lower_char :: "char \<Rightarrow> char" where
  "lower_char c =
     (if (65::nat) \<le> of_char c \<and> of_char c \<le> (90::nat)
         \<or> (192::nat) \<le> of_char c \<and> of_char c \<le> (222::nat) \<and> of_char c \<noteq> (215::nat)
      then char_of (of_char c + (32::nat))
      else c)"

definition lower :: "string \<Rightarrow> string" where
  "lower s = map lower_char s"

text \<open>
  \<^verbatim>\<open>re.search(r'\d+$', name)\<close>: the digits at the end of the name; \<^verbatim>\<open>$\<close> also
  matches before a line feed that ends the string.
\<close>

definition trailing_number :: "string \<Rightarrow> string option" where
  "trailing_number name =
     (let body = (if name \<noteq> [] \<and> last name = CHR 0x0A then butlast name else name);
          ds = rev (takeWhile is_digit (rev body))
      in if ds = [] then None else Some ds)"

text \<open>
  The level of the style-name path: the trailing number minus one, or 0 without one.
\<close>

definition style_level :: "string \<Rightarrow> int" where
  "style_level name =
     (case trailing_number name of
        None \<Rightarrow> 0
      | Some ds \<Rightarrow> int (digits_value ds) - 1)"

text \<open>
  \<^verbatim>\<open>_get_list_info\<close>.  The value is the tuple \<^verbatim>\<open>(list_type, level, text)\<close> or
  \<^verbatim>\<open>None\<close>; the conversion \<^verbatim>\<open>int(...)\<close> of the \<^verbatim>\<open>ilvl\<close> value can raise.
\<close>

definition get_list_info :: "docx_paragraph \<Rightarrow> py_error + (list_kind \<times> int \<times> string) option" where
  "get_list_info p =
     (if (case p_numPr p of None \<Rightarrow> False | Some np \<Rightarrow> np_numId np) then
        (case (case p_numPr p of
                 None \<Rightarrow> Some 0
               | Some np \<Rightarrow>
                   (case np_ilvl np of
                      None \<Rightarrow> Some 0
                    | Some None \<Rightarrow> py_int ''0''
                    | Some (Some v) \<Rightarrow> py_int v))
         of None \<Rightarrow> Inl ValueError
          | Some level \<Rightarrow> Inr (Some (Bullet, level, process_runs p)))
      else if contains ''list bullet'' (lower (p_style_name p))
              \<or> prefix ''List Bullet'' (p_style_name p)
      then Inr (Some (Bullet, style_level (p_style_name p), process_runs p))
      else if contains ''list number'' (lower (p_style_name p))
              \<or> prefix ''List Number'' (p_style_name p)
      then Inr (Some (Number, style_level (p_style_name p), process_runs p))
      else Inr None)"

section \<open>Block conversion: \<^verbatim>\<open>_convert_paragraph\<close>, \<^verbatim>\<open>_convert_table\<close> and the dispatcher\<close>

text \<open>
  A search-replace rule of the configuration; a missing key is \<^verbatim>\<open>None\<close> and is
  read with the default of the source.
\<close>

record replacement =
  rp_search :: "string option"
  rp_replace :: "string option"
  rp_case_sensitive :: "bool option"

text \<open>
  The options of the configuration that the modelled functions read: \<^verbatim>\<open>output\<close>,
  \<^verbatim>\<open>quote_detection\<close> and \<^verbatim>\<open>replacements\<close>.
\<close>

record config =
  heading_tag :: "string option"
  paragraph_tag :: "string option"
  qd_enabled :: "bool option"
  qd_threshold :: "int option"
  qd_wrap_tag :: "string option"
  qd_quote_types :: "string list option"
  replacements :: "replacement list"

text \<open>\<^verbatim>\<open>d.get(key, default)\<close>.\<close>

definition get_or :: "'a option \<Rightarrow> 'a \<Rightarrow> 'a" where
  "get_or v dflt = (case v of None \<Rightarrow> dflt | Some x \<Rightarrow> x)"

text \<open>
  \<^verbatim>\<open>text.count(sub)\<close>: occurrences from left to right without overlap; for the
  empty \<^verbatim>\<open>sub\<close> Python answers the length plus one.
\<close>

function count_from :: "string \<Rightarrow> string \<Rightarrow> nat" where
  "count_from sub [] = 0"
| "count_from sub (c # cs) =
     (if sub \<noteq> [] \<and> prefix sub (c # cs)
      then 1 + count_from sub (drop (length sub) (c # cs))
      else count_from sub cs)"
  by pat_completeness auto
termination
  by (relation "measure (\<lambda>(sub, s). length s)") (auto simp: neq_Nil_conv)

definition str_count :: "string \<Rightarrow> string \<Rightarrow> nat" where
  "str_count text sub = (if sub = [] then length text + 1 else count_from sub text)"

text \<open>
  \<^verbatim>\<open>_count_quotes\<close>.  The default list of the source has five entries: three times
  the double quote and twice the apostrophe.
\<close>

definition default_quote_types :: "string list" where
  "default_quote_types = [[CHR 0x22], [CHR 0x22], [CHR 0x22], [CHR 0x27], [CHR 0x27]]"

definition count_quotes :: "config \<Rightarrow> string \<Rightarrow> int" where
  "count_quotes cfg text =
     sum_list (map (\<lambda>qt. int (str_count text qt))
                   (get_or (qd_quote_types cfg) default_quote_types))"

text \<open>\<^verbatim>\<open>_parse_wrap_tag\<close>: the pair of the opening and the closing tag.\<close>

definition parse_wrap_tag :: "string \<Rightarrow> string \<times> string" where
  "parse_wrap_tag wrap_tag0 =
     (let wrap_tag = strip wrap_tag0
      in if CHR '' '' \<in> set wrap_tag
         then (''<'' @ wrap_tag @ ''>'',
               ''</'' @ takeWhile (\<lambda>c. \<not> is_space c) wrap_tag @ ''>'')
         else (''<'' @ wrap_tag @ ''>'', ''</'' @ wrap_tag @ ''>''))"

text \<open>\<^verbatim>\<open>_convert_paragraph\<close>.\<close>

definition convert_paragraph :: "config \<Rightarrow> docx_paragraph \<Rightarrow> string" where
  "convert_paragraph cfg p =
     (let text = strip (p_text p)
      in if text = [] then []
         else if prefix ''Heading'' (p_style_name p) then
           (let tag = get_or (heading_tag cfg) ''h3''
            in ''<'' @ tag @ ''>'' @ escape_html text @ ''</'' @ tag @ ''>'')
         else
           (let tag = get_or (paragraph_tag cfg) ''p'';
                html_text = process_runs p
            in if py_bool (qd_enabled cfg) \<and> count_quotes cfg text \<ge> get_or (qd_threshold cfg) 3
               then (case parse_wrap_tag (get_or (qd_wrap_tag cfg) ''blockquote'') of
                       (opening_tag, closing_tag) \<Rightarrow>
                         opening_tag @ ''<'' @ tag @ ''>'' @ html_text @ ''</'' @ tag @ ''>''
                         @ closing_tag)
               else ''<'' @ tag @ ''>'' @ html_text @ ''</'' @ tag @ ''>''))"

text \<open>
  \<^verbatim>\<open>_convert_table\<close> on the cell texts of the rows (\<^verbatim>\<open>cell.text\<close> of python-docx).
\<close>

definition table_row :: "string \<Rightarrow> string list \<Rightarrow> string list" where
  "table_row cell_tag cells =
     [''    <tr>'']
     @ map (\<lambda>c. ''      <'' @ cell_tag @ ''>'' @ escape_html (strip c) @ ''</'' @ cell_tag @ ''>'')
           cells
     @ [''    </tr>'']"

definition convert_table :: "string list list \<Rightarrow> string" where
  "convert_table rows =
     (case rows of
        [] \<Rightarrow> []
      | header_row # body_rows \<Rightarrow>
          join_str nl
            ([''<table>'', ''  <thead>''] @ table_row ''th'' header_row @ [''  </thead>'']
             @ (if body_rows \<noteq> []
                then [''  <tbody>''] @ concat (map (table_row ''td'') body_rows)
                     @ [''  </tbody>'']
                else [])
             @ [''</table>'']))"

text \<open>
  The elements of the document body: paragraphs, tables, and elements of any other
  kind, which the loop of \<^verbatim>\<open>convert_docx_to_html\<close> passes over.
\<close>

datatype block = Para docx_paragraph | Tbl "string list list" | Other

text \<open>The three local variables of the loop.\<close>

record dispatcher =
  d_html_parts :: "string list"
  d_list_items :: "list_item list"
  d_list_type :: "list_kind option"

text \<open>
  \<^verbatim>\<open>if current_list_items: html_parts.append(self._create_list_html(...))\<close>, followed
  by the reset of the two list variables.
\<close>

definition close_open_list :: "dispatcher \<Rightarrow> dispatcher" where
  "close_open_list d =
     (if d_list_items d \<noteq> []
      then d\<lparr>d_html_parts := d_html_parts d @ [create_list_html (d_list_items d)],
             d_list_items := [], d_list_type := None\<rparr>
      else d)"

text \<open>\<^verbatim>\<open>if html: html_parts.append(html)\<close>.\<close>

definition append_html :: "string \<Rightarrow> dispatcher \<Rightarrow> dispatcher" where
  "append_html html d = (if html \<noteq> [] then d\<lparr>d_html_parts := d_html_parts d @ [html]\<rparr> else d)"

text \<open>One iteration of \<^verbatim>\<open>for element in doc.element.body\<close>.\<close>

definition dispatch_block :: "config \<Rightarrow> dispatcher \<Rightarrow> block \<Rightarrow> py_error + dispatcher" where
  "dispatch_block cfg d element =
     (case element of
        Para p \<Rightarrow>
          (case get_list_info p of
             Inl e \<Rightarrow> Inl e
           | Inr (Some (list_type, level, list_text)) \<Rightarrow>
               Inr (d\<lparr>d_list_type :=
                        (if d_list_type d = None then Some list_type
                         else d_list_type d),
                      d_list_items := d_list_items d @ [(level, list_type, list_text)]\<rparr>)
           | Inr None \<Rightarrow> Inr (append_html (convert_paragraph cfg p) (close_open_list d)))
      | Tbl t \<Rightarrow> Inr (append_html (convert_table t) (close_open_list d))
      | Other \<Rightarrow> Inr d)"

fun dispatch_blocks :: "config \<Rightarrow> dispatcher \<Rightarrow> block list \<Rightarrow> py_error + dispatcher" where
  "dispatch_blocks cfg d [] = Inr d"
| "dispatch_blocks cfg d (b # bs) =
     (case dispatch_block cfg d b of
        Inl e \<Rightarrow> Inl e
      | Inr d' \<Rightarrow> dispatch_blocks cfg d' bs)"

text \<open>
  \<^verbatim>\<open>convert_docx_to_html\<close> up to \<^verbatim>\<open>'\n'.join(html_parts)\<close>, before the two
  post-passes.
\<close>

definition convert_blocks :: "config \<Rightarrow> block list \<Rightarrow> py_error + string" where
  "convert_blocks cfg blocks =
     (case dispatch_blocks cfg
             \<lparr>d_html_parts = [], d_list_items = [], d_list_type = None\<rparr> blocks of
        Inl e \<Rightarrow> Inl e
      | Inr d \<Rightarrow> Inr (join_str nl (d_html_parts (close_open_list d))))"

section \<open>Post-pass: \<^verbatim>\<open>_apply_replacements\<close>\<close>

text \<open>
  One rule applied to the HTML text.  The case-insensitive branch calls the regular
  expression library, \<^verbatim>\<open>re.compile(re.escape(search), re.IGNORECASE).sub(replace, html)\<close>;
  this call is the parameter \<open>re_sub\<close>, a function of the search string, the
  replacement template and the text, which can raise \<^verbatim>\<open>re.error\<close> on the template.
\<close>

definition apply_replacement ::
  "(string \<Rightarrow> string \<Rightarrow> string \<Rightarrow> py_error + string) \<Rightarrow> replacement \<Rightarrow> string
   \<Rightarrow> py_error + string" where
  "apply_replacement re_sub rp html =
     (let search = get_or (rp_search rp) [];
          replace = get_or (rp_replace rp) [];
          case_sensitive = get_or (rp_case_sensitive rp) True
      in if search = [] then Inr html
         else if case_sensitive then Inr (str_replace search replace html)
         else re_sub search replace html)"

text \<open>\<^verbatim>\<open>for replacement in self.replacements\<close>; an exception ends the loop.\<close>

fun apply_replacements ::
  "(string \<Rightarrow> string \<Rightarrow> string \<Rightarrow> py_error + string) \<Rightarrow> replacement list \<Rightarrow> string
   \<Rightarrow> py_error + string" where
  "apply_replacements re_sub [] html = Inr html"
| "apply_replacements re_sub (rp # rps) html =
     (case apply_replacement re_sub rp html of
        Inl e \<Rightarrow> Inl e
      | Inr html' \<Rightarrow> apply_replacements re_sub rps html')"

section \<open>Predicates used in the proofs\<close>

text \<open>
  The state of the walk while no run has belonged to a hyperlink and all runs so far had
  the formatting \<open>b\<close>, \<open>i\<close>, \<open>u\<close>: no hyperlink is open, and an open group has exactly
  this formatting.
\<close>

definition plain_group :: "bool \<Rightarrow> bool \<Rightarrow> bool \<Rightarrow> walk \<Rightarrow> bool" where
  "plain_group b i u w =
     (current_hyperlink w = None \<and>
      (group_text w \<noteq> [] \<longrightarrow>
         group_bold w = Some b \<and> group_italic w = Some i \<and> group_underline w = Some u \<and>
         group_hyperlink w = None))"

section \<open>Well-nested inline markup\<close>

text \<open>
  The property of claim C5, as a check on the produced string.  The string is read from
  left to right; at every position that starts an opening or closing \<open>strong\<close>, \<open>em\<close>,
  \<open>u\<close> or \<open>a\<close> tag, the tag is pushed on, or has to match the top of, a stack of open
  tags, and at the end the stack has to be empty.
\<close>

datatype inline_tag = TStrong | TEm | TU | TA

datatype tag_token = Opening inline_tag | Closing inline_tag

definition tag_at :: "string \<Rightarrow> tag_token option" where
  "tag_at s =
     (if prefix ''<strong>'' s then Some (Opening TStrong)
      else if prefix ''</strong>'' s then Some (Closing TStrong)
      else if prefix ''<em>'' s then Some (Opening TEm)
      else if prefix ''</em>'' s then Some (Closing TEm)
      else if prefix ''<u>'' s then Some (Opening TU)
      else if prefix ''</u>'' s then Some (Closing TU)
      else if prefix ''<a '' s \<or> prefix ''<a>'' s then Some (Opening TA)
      else if prefix ''</a>'' s then Some (Closing TA)
      else None)"

fun tags_from :: "inline_tag list \<Rightarrow> string \<Rightarrow> bool" where
  "tags_from stack [] = (stack = [])"
| "tags_from stack (c # cs) =
     (case tag_at (c # cs) of
        None \<Rightarrow> tags_from stack cs
      | Some (Opening t) \<Rightarrow> tags_from (t # stack) cs
      | Some (Closing t) \<Rightarrow>
          (case stack of
             [] \<Rightarrow> False
           | t' # stack' \<Rightarrow> t' = t \<and> tags_from stack' cs))"


text \<open>
  A piece of markup that leaves every stack as it found it, whatever follows it.
\<close>

definition neutral :: "string \<Rightarrow> bool" where
  "neutral p = (\<forall>stack rest. tags_from stack (p @ rest) = tags_from stack rest)"








section \<open>Verified properties\<close>

subsection \<open>List Builder\<close>

lemma build_loop_lower: "i \<le> snd (build_loop items cl i parts ct st)"
  by (induction items cl i parts ct st rule: build_loop.induct)
     (subst build_loop.simps, auto)

lemma build_loop_upper:
  "i \<le> length items \<Longrightarrow> snd (build_loop items cl i parts ct st) \<le> length items"
proof (induction items cl i parts ct st rule: build_loop.induct)
  case (1 items cl i parts ct st)
  show ?case
    apply (subst build_loop.simps)
    using 1 by auto
qed

text \<open>A frame with target level \<open>cl\<close> only moves past items at level \<open>cl\<close> or deeper.\<close>

lemma build_loop_levels:
  "i \<le> k \<Longrightarrow> k < snd (build_loop items cl i parts ct st) \<Longrightarrow> cl \<le> item_level (items ! k)"
proof (induction items cl i parts ct st rule: build_loop.induct)
  case (1 items cl i parts ct st)
  show ?case
  proof (cases "i < length items \<and> item_level (items ! i) = cl")
    case False
    then have "snd (build_loop items cl i parts ct st) = i"
      by (subst build_loop.simps) auto
    with 1(5,6) show ?thesis by simp
  next
    case True
    note t = this
    show ?thesis
    proof (cases "i + 1 < length items \<and> item_level (items ! (i + 1)) > item_level (items ! i)")
      case False
      note f = this
      have eq: "build_loop items cl i parts ct st = build_loop items cl (i + 1)
              (open_parts parts st ct (item_type (items ! i)) @
                 [''  <li>'' @ item_text (items ! i) @ ''</li>''])
              (open_type st ct (item_type (items ! i))) True"
        using t f by (subst build_loop.simps) auto
      show ?thesis
      proof (cases "k = i")
        case True
        with t show ?thesis by simp
      next
        case False
        with 1(5) have "i + 1 \<le> k" by simp
        from 1(4)[OF _ _ _ _ this] t f 1(6) eq show ?thesis by auto
      qed
    next
      case True
      let ?n = "build_loop items (item_level (items ! (i + 1))) (i + 1) [] None False"
      have eq: "build_loop items cl i parts ct st = build_loop items cl (snd ?n)
              (open_parts parts st ct (item_type (items ! i)) @
                 [''  <li>'' @ item_text (items ! i), indent_nested (fst ?n), ''  </li>''])
              (open_type st ct (item_type (items ! i))) True"
        using t True by (subst build_loop.simps) auto
      consider "k = i" | "i + 1 \<le> k" "k < snd ?n" | "snd ?n \<le> k"
        using 1(5) by linarith
      then show ?thesis
      proof cases
        case 1
        with t show ?thesis by simp
      next
        case 2
        from "1.IH"(1)[OF _ _ _ _ 2] t True
        have "item_level (items ! (i + 1)) \<le> item_level (items ! k)" by auto
        with t True show ?thesis by auto
      next
        case 3
        from "1.IH"(3)[OF _ _ _ _ 3] t True 1(6) eq show ?thesis by auto
      qed
    qed
  qed
qed

lemma min_level_Min: "min_level it rest = Min (item_level ` set (it # rest))"
  unfolding min_level_def
  by (metis Min.set_eq_fold list.set_map list.simps(9))

lemmas list_builder_defs =
  create_list_html_def build_nested_list_def min_level_def item_level_def item_type_def
  item_text_def open_parts_def open_type_def close_started_def tag_of_def indent_nested_def
  nl_def

text \<open>
  Claim C2.  The items \<open>[(0,Bullet,A), (1,Number,B), (1,Number,C), (0,Bullet,D)]\<close> give a
  \<open>ul\<close> whose first \<open>li\<close> holds A and the nested \<open>ol\<close> with the items B and C, followed
  by the sibling \<open>li\<close> for D (every line of the nested list is indented by four
  spaces).  In any frame, when the loop stands at an item whose level is strictly below
  the target level, the frame closes its list tag if one is open and returns the index
  of that item; and the index a frame returns is never beyond such an item: every item
  the frame has moved past is at the target level or deeper.
\<close>

theorem C2_list_nesting:
  "create_list_html [(0, Bullet, ''A''), (1, Number, ''B''), (1, Number, ''C''), (0, Bullet, ''D'')]
     = ''<ul>\<newline>  <li>A\<newline>    <ol>\<newline>      <li>B</li>\<newline>      <li>C</li>\<newline>    </ol>\<newline>  </li>\<newline>  <li>D</li>\<newline></ul>''
   \<and> (i < length items \<and> item_level (items ! i) < current_level \<longrightarrow>
        build_loop items current_level i html_parts current_list_type list_started
          = (join_str nl (close_started html_parts list_started current_list_type), i))
   \<and> (build_nested_list items start_index current_level = (html, next_i) \<and>
        start_index \<le> k \<and> k < next_i \<longrightarrow> current_level \<le> item_level (items ! k))"
proof (intro conjI impI)
  show "create_list_html [(0, Bullet, ''A''), (1, Number, ''B''), (1, Number, ''C''), (0, Bullet, ''D'')]
     = ''<ul>\<newline>  <li>A\<newline>    <ol>\<newline>      <li>B</li>\<newline>      <li>C</li>\<newline>    </ol>\<newline>  </li>\<newline>  <li>D</li>\<newline></ul>''"
    by (simp add: list_builder_defs build_loop.simps)
next
  assume "i < length items \<and> item_level (items ! i) < current_level"
  then show "build_loop items current_level i html_parts current_list_type list_started
          = (join_str nl (close_started html_parts list_started current_list_type), i)"
    by (subst build_loop.simps) simp
next
  assume a: "build_nested_list items start_index current_level = (html, next_i) \<and>
        start_index \<le> k \<and> k < next_i"
  show "current_level \<le> item_level (items ! k)"
  proof (cases "start_index \<ge> length items")
    case True
    with a show ?thesis by (simp add: build_nested_list_def)
  next
    case False
    with a have "k < snd (build_loop items current_level start_index [] None False)"
      by (simp add: build_nested_list_def)
    with a show ?thesis using build_loop_levels by blast
  qed
qed

text \<open>
  The general parts of C2 at the nested frame of the example: it stands at index 3
  (item D, level 0) with target level 1 and the \<open>ol\<close> open.
\<close>

theorem C2_list_nesting_witness:
  "(3::nat) < length [(0, Bullet, ''A''), (1, Number, ''B''), (1, Number, ''C''), (0::int, Bullet, ''D'')]
   \<and> item_level ([(0, Bullet, ''A''), (1, Number, ''B''), (1, Number, ''C''), (0, Bullet, ''D'')] ! 3) < 1
   \<and> build_loop [(0, Bullet, ''A''), (1, Number, ''B''), (1, Number, ''C''), (0, Bullet, ''D'')] 1 3
        [''<ol>'', ''  <li>B</li>'', ''  <li>C</li>''] (Some Number) True
       = (''<ol>\<newline>  <li>B</li>\<newline>  <li>C</li>\<newline></ol>'', 3)
   \<and> build_nested_list [(0, Bullet, ''A''), (1, Number, ''B''), (1, Number, ''C''), (0, Bullet, ''D'')] 1 1
       = (''<ol>\<newline>  <li>B</li>\<newline>  <li>C</li>\<newline></ol>'', 3)
   \<and> (1::int) \<le> item_level ([(0, Bullet, ''A''), (1, Number, ''B''), (1, Number, ''C''), (0, Bullet, ''D'')] ! 2)"
proof -
  let ?items = "[(0::int, Bullet, ''A''), (1, Number, ''B''), (1, Number, ''C''), (0, Bullet, ''D'')]"
  have h1: "(3::nat) < length ?items \<and> item_level (?items ! 3) < 1"
    by (simp add: item_level_def)
  have h2: "build_nested_list ?items 1 1
       = (''<ol>\<newline>  <li>B</li>\<newline>  <li>C</li>\<newline></ol>'', 3)"
    by (simp add: list_builder_defs build_loop.simps)
  from C2_list_nesting [of 3 ?items 1 "[''<ol>'', ''  <li>B</li>'', ''  <li>C</li>'']"
        "Some Number" True 1 "''<ol>\<newline>  <li>B</li>\<newline>  <li>C</li>\<newline></ol>''" 3 2]
  show ?thesis using h1 h2
    by (simp add: list_builder_defs)
qed

text \<open>
  Claim C6.  The List Builder is total: the recursion of \<^verbatim>\<open>_build_nested_list\<close> is
  well founded from every argument (so also for buffers that skip levels or start above
  level 0), and the index a frame returns lies between its start index and the length
  of the buffer.  For a non-empty buffer the outermost call is made at index 0 with the
  minimum level of the whole buffer.  When the loop of a frame stands at an item whose
  level is strictly above the target level, the frame ends there: it closes its list tag
  if one is open and returns the index of that item.  A buffer whose items are all at
  level 2 is rendered as one flat list.
\<close>

theorem C6_level_jump_safety:
  "build_loop_dom (items, current_level, i, html_parts, current_list_type, list_started)
   \<and> start_index \<le> snd (build_nested_list items start_index current_level)
   \<and> snd (build_nested_list items start_index current_level) \<le> max start_index (length items)
   \<and> (items \<noteq> [] \<longrightarrow>
        create_list_html items
          = fst (build_nested_list items 0 (Min (item_level ` set items))))
   \<and> (i < length items \<and> current_level < item_level (items ! i) \<longrightarrow>
        build_loop items current_level i html_parts current_list_type list_started
          = (join_str nl (close_started html_parts list_started current_list_type), i))
   \<and> create_list_html [(2, Bullet, ''A''), (2, Bullet, ''B'')]
        = ''<ul>\<newline>  <li>A</li>\<newline>  <li>B</li>\<newline></ul>''"
proof (intro conjI impI)
  show "build_loop_dom (items, current_level, i, html_parts, current_list_type, list_started)"
    using build_loop_total by blast
next
  show "start_index \<le> snd (build_nested_list items start_index current_level)"
    by (simp add: build_nested_list_def build_loop_lower)
next
  show "snd (build_nested_list items start_index current_level) \<le> max start_index (length items)"
  proof (cases "start_index \<ge> length items")
    case True
    then show ?thesis by (simp add: build_nested_list_def)
  next
    case False
    then have "snd (build_loop items current_level start_index [] None False) \<le> length items"
      by (intro build_loop_upper) simp
    with False show ?thesis by (simp add: build_nested_list_def)
  qed
next
  assume "items \<noteq> []"
  then obtain it rest where "items = it # rest"
    by (cases items) auto
  then show "create_list_html items
          = fst (build_nested_list items 0 (Min (item_level ` set items)))"
    by (simp add: create_list_html_def min_level_Min)
next
  assume "i < length items \<and> current_level < item_level (items ! i)"
  then show "build_loop items current_level i html_parts current_list_type list_started
          = (join_str nl (close_started html_parts list_started current_list_type), i)"
    by (subst build_loop.simps) simp
next
  show "create_list_html [(2, Bullet, ''A''), (2, Bullet, ''B'')]
        = ''<ul>\<newline>  <li>A</li>\<newline>  <li>B</li>\<newline></ul>''"
    by (simp add: list_builder_defs build_loop.simps)
qed

text \<open>
  C6 at the buffer with levels 0, 2, 1: the nested frame for level 2 returns at index 2,
  where the outer frame (target 0) finds level 1, closes its \<open>ul\<close> and returns.
\<close>

theorem C6_level_jump_safety_witness:
  "[(0::int, Bullet, ''A''), (2, Bullet, ''B''), (1, Bullet, ''C'')] \<noteq> []
   \<and> (2::nat) < length [(0::int, Bullet, ''A''), (2, Bullet, ''B''), (1, Bullet, ''C'')]
   \<and> (0::int) < item_level ([(0, Bullet, ''A''), (2, Bullet, ''B''), (1, Bullet, ''C'')] ! 2)
   \<and> create_list_html [(0, Bullet, ''A''), (2, Bullet, ''B''), (1, Bullet, ''C'')]
       = fst (build_nested_list [(0, Bullet, ''A''), (2, Bullet, ''B''), (1, Bullet, ''C'')] 0
                (Min (item_level ` set [(0, Bullet, ''A''), (2, Bullet, ''B''), (1, Bullet, ''C'')])))
   \<and> build_loop [(0, Bullet, ''A''), (2, Bullet, ''B''), (1, Bullet, ''C'')] 0 2
        [''<ul>'', ''  <li>A'', ''    <ul>\<newline>      <li>B</li>\<newline>    </ul>'', ''  </li>''] (Some Bullet) True
       = (''<ul>\<newline>  <li>A\<newline>    <ul>\<newline>      <li>B</li>\<newline>    </ul>\<newline>  </li>\<newline></ul>'', 2)"
proof -
  let ?items = "[(0::int, Bullet, ''A''), (2, Bullet, ''B''), (1, Bullet, ''C'')]"
  have h: "?items \<noteq> [] \<and> (2::nat) < length ?items \<and> (0::int) < item_level (?items ! 2)"
    by (simp add: item_level_def)
  from C6_level_jump_safety [where items = ?items and i = 2 and current_level = 0
        and html_parts = "[''<ul>'', ''  <li>A'', ''    <ul>\<newline>      <li>B</li>\<newline>    </ul>'', ''  </li>'']"
        and current_list_type = "Some Bullet" and list_started = True]
  show ?thesis using h
    by (simp add: close_started_def tag_of_def nl_def)
qed

subsection \<open>Run Consolidator\<close>

lemma str_replace_single:
  "str_replace [c] new s = concat (map (\<lambda>x. if x = c then new else [x]) s)"
  by (induction s) (auto simp: str_replace_def)

lemma escape_html_Nil [simp]: "escape_html [] = []"
  by (simp add: escape_html_def str_replace_def)

lemma str_replace_single_eq_Nil:
  "new \<noteq> [] \<Longrightarrow> (str_replace [c] new s = []) = (s = [])"
  by (cases s) (simp_all add: str_replace_single)

lemma escape_html_eq_Nil [simp]: "escape_html t = [] \<longleftrightarrow> t = []"
  by (simp add: escape_html_def str_replace_single_eq_Nil)

lemma concat_map_filter_escape:
  "concat (map escape_html (filter (\<lambda>t. t \<noteq> []) ts)) = concat (map escape_html ts)"
  by (induction ts) auto

lemma find_run_hyperlink_None:
  "find_run_hyperlink hls e = None \<longleftrightarrow> (\<forall>h \<in> set hls. e \<notin> set (link_runs h))"
  by (induction hls) auto

lemma process_run_plain:
  assumes "find_run_hyperlink hls (run_elem r) = None"
    and "py_bool (run_bold r) = b" "py_bool (run_italic r) = i" "py_bool (run_underline r) = u"
    and "plain_group b i u w"
  shows "process_run hls w r =
           (if run_text r = [] then w
            else w\<lparr>group_bold := Some b, group_italic := Some i, group_underline := Some u,
                   group_hyperlink := None,
                   group_text := group_text w @ [escape_html (run_text r)]\<rparr>)"
  using assms
  by (cases "group_text w = []") (auto simp: process_run_def plain_group_def Let_def)

lemma walk_runs_plain:
  assumes "\<forall>r \<in> set runs. find_run_hyperlink hls (run_elem r) = None \<and>
             py_bool (run_bold r) = b \<and> py_bool (run_italic r) = i \<and>
             py_bool (run_underline r) = u"
    and "plain_group b i u w"
  shows "plain_group b i u (walk_runs hls w runs) \<and>
         result (walk_runs hls w runs) = result w \<and>
         hyperlink_text (walk_runs hls w runs) = hyperlink_text w \<and>
         processed_hyperlinks (walk_runs hls w runs) = processed_hyperlinks w \<and>
         group_text (walk_runs hls w runs) =
           group_text w @ map escape_html (filter (\<lambda>t. t \<noteq> []) (map run_text runs))"
  using assms
proof (induction runs arbitrary: w)
  case Nil
  then show ?case by simp
next
  case (Cons r rs)
  let ?w = "process_run hls w r"
  have eq: "?w = (if run_text r = [] then w
            else w\<lparr>group_bold := Some b, group_italic := Some i, group_underline := Some u,
                   group_hyperlink := None,
                   group_text := group_text w @ [escape_html (run_text r)]\<rparr>)"
    using Cons.prems by (intro process_run_plain) auto
  have pg: "plain_group b i u ?w"
    using Cons.prems(2) by (auto simp: eq plain_group_def)
  from Cons.IH[OF _ pg] Cons.prems(1)
  show ?case by (auto simp: eq)
qed

lemma consolidate_plain:
  assumes "\<forall>r \<in> set runs. (\<forall>h \<in> set hls. run_elem r \<notin> set (link_runs h)) \<and>
             py_bool (run_bold r) = b \<and> py_bool (run_italic r) = i \<and>
             py_bool (run_underline r) = u"
  shows "consolidate_runs hls runs =
          (if \<forall>r \<in> set runs. run_text r = [] then []
           else format_text (Some b) (Some i) (Some u)
                  (concat (map (\<lambda>r. escape_html (run_text r)) runs)))
          @ concat (unprocessed_links hls {})"
proof -
  have pg: "plain_group b i u init_walk"
    by (simp add: plain_group_def init_walk_def)
  have a: "\<forall>r \<in> set runs. find_run_hyperlink hls (run_elem r) = None \<and>
             py_bool (run_bold r) = b \<and> py_bool (run_italic r) = i \<and>
             py_bool (run_underline r) = u"
    using assms by (simp add: find_run_hyperlink_None)
  note w = walk_runs_plain[OF a pg]
  let ?w = "walk_runs hls init_walk runs"
  have gt: "group_text ?w = map escape_html (filter (\<lambda>t. t \<noteq> []) (map run_text runs))"
    using w by (simp add: init_walk_def)
  have e: "(group_text ?w = []) = (\<forall>r \<in> set runs. run_text r = [])"
    by (auto simp: gt filter_empty_conv)
  have c: "concat (group_text ?w) = concat (map (\<lambda>r. escape_html (run_text r)) runs)"
    by (simp add: gt concat_map_filter_escape comp_def)
  show ?thesis
    using w e c
    by (auto simp: consolidate_runs_def flush_group_def close_hyperlink_def Let_def
                   plain_group_def init_walk_def)
qed

lemmas consolidator_defs =
  consolidate_runs_def init_walk_def process_run_def flush_group_def close_hyperlink_def
  closed_link_def format_text_def format_link_def unprocessed_links_def py_bool_def
  link_id_def link_url_def link_runs_def link_text_def Let_def
  escape_html_def str_replace_def

text \<open>
  Claim C1.  When no run of the paragraph belongs to a hyperlink and all runs have the
  same bold, italic and underline values, the output of the Run Consolidator is one tag
  group: the formatting tags once, around the concatenation of the escaped texts of all
  runs (and nothing at all when every run has empty text), followed only by the
  hyperlinks of the paragraph that no run belongs to.  The two bold runs
  \<open>Hello \<close> and \<open>World\<close> give exactly \<open><strong>Hello World</strong>\<close>.
\<close>

theorem C1_consolidation:
  "((\<forall>r \<in> set runs. (\<forall>h \<in> set hyperlinks. run_elem r \<notin> set (link_runs h)) \<and>
        py_bool (run_bold r) = b \<and> py_bool (run_italic r) = i \<and>
        py_bool (run_underline r) = u) \<longrightarrow>
    consolidate_runs hyperlinks runs =
      (if \<forall>r \<in> set runs. run_text r = [] then []
       else format_text (Some b) (Some i) (Some u)
              (concat (map (\<lambda>r. escape_html (run_text r)) runs)))
      @ concat (unprocessed_links hyperlinks {}))
   \<and> consolidate_runs []
        [\<lparr>run_elem = 0, run_text = ''Hello '', run_bold = Some True, run_italic = None,
          run_underline = None\<rparr>,
         \<lparr>run_elem = 1, run_text = ''World'', run_bold = Some True, run_italic = None,
          run_underline = None\<rparr>]
       = ''<strong>Hello World</strong>''"
proof (intro conjI impI)
  assume "\<forall>r \<in> set runs. (\<forall>h \<in> set hyperlinks. run_elem r \<notin> set (link_runs h)) \<and>
        py_bool (run_bold r) = b \<and> py_bool (run_italic r) = i \<and>
        py_bool (run_underline r) = u"
  then show "consolidate_runs hyperlinks runs =
      (if \<forall>r \<in> set runs. run_text r = [] then []
       else format_text (Some b) (Some i) (Some u)
              (concat (map (\<lambda>r. escape_html (run_text r)) runs)))
      @ concat (unprocessed_links hyperlinks {})"
    by (rule consolidate_plain)
next
  show "consolidate_runs []
        [\<lparr>run_elem = 0, run_text = ''Hello '', run_bold = Some True, run_italic = None,
          run_underline = None\<rparr>,
         \<lparr>run_elem = 1, run_text = ''World'', run_bold = Some True, run_italic = None,
          run_underline = None\<rparr>]
       = ''<strong>Hello World</strong>''"
    by (simp add: consolidator_defs)
qed

text \<open>
  C1 at three italic runs, the middle one with a character that is escaped, in a
  paragraph without hyperlinks: one \<open>em\<close> group.
\<close>

theorem C1_consolidation_witness:
  "map (\<lambda>r. (py_bool (run_bold r), py_bool (run_italic r), py_bool (run_underline r)))
       [\<lparr>run_elem = 0, run_text = ''a'', run_bold = None, run_italic = Some True,
         run_underline = None\<rparr>,
        \<lparr>run_elem = 1, run_text = ''<'', run_bold = Some False, run_italic = Some True,
         run_underline = None\<rparr>,
        \<lparr>run_elem = 2, run_text = ''b'', run_bold = None, run_italic = Some True,
         run_underline = Some False\<rparr>]
     = [(False, True, False), (False, True, False), (False, True, False)]
   \<and> consolidate_runs []
        [\<lparr>run_elem = 0, run_text = ''a'', run_bold = None, run_italic = Some True,
          run_underline = None\<rparr>,
         \<lparr>run_elem = 1, run_text = ''<'', run_bold = Some False, run_italic = Some True,
          run_underline = None\<rparr>,
         \<lparr>run_elem = 2, run_text = ''b'', run_bold = None, run_italic = Some True,
          run_underline = Some False\<rparr>]
       = ''<em>a&lt;b</em>''"
proof -
  let ?runs = "[\<lparr>run_elem = 0, run_text = ''a'', run_bold = None, run_italic = Some True,
                  run_underline = None\<rparr>,
                 \<lparr>run_elem = 1, run_text = ''<'', run_bold = Some False, run_italic = Some True,
                  run_underline = None\<rparr>,
                 \<lparr>run_elem = 2, run_text = ''b'', run_bold = None, run_italic = Some True,
                  run_underline = Some False\<rparr>]"
  have h: "\<forall>r \<in> set ?runs.
      (\<forall>h \<in> set ([] :: hyperlink list). run_elem r \<notin> set (link_runs h)) \<and>
      py_bool (run_bold r) = False \<and> py_bool (run_italic r) = True \<and>
      py_bool (run_underline r) = False"
    by (simp add: py_bool_def)
  have c: "consolidate_runs [] ?runs =
      (if \<forall>r \<in> set ?runs. run_text r = [] then []
       else format_text (Some False) (Some True) (Some False)
              (concat (map (\<lambda>r. escape_html (run_text r)) ?runs)))
      @ concat (unprocessed_links [] {})"
    by (rule mp [OF conjunct1 [OF C1_consolidation [of ?runs "[]" False True False]] h])
  have "consolidate_runs [] ?runs = ''<em>a&lt;b</em>''"
    unfolding c
    by (simp add: format_text_def py_bool_def unprocessed_links_def escape_html_def
                  str_replace_def)
  moreover have "map (\<lambda>r. (py_bool (run_bold r), py_bool (run_italic r),
                           py_bool (run_underline r))) ?runs
     = [(False, True, False), (False, True, False), (False, True, False)]"
    by (simp add: py_bool_def)
  ultimately show ?thesis
    by simp
qed

subsection \<open>Post-pass replacements\<close>

lemma replace_from_self: "s \<noteq> [] \<Longrightarrow> replace_from s r s = r"
  by (cases s) simp_all

lemma apply_replacements_append:
  "apply_replacements re_sub (rps1 @ rps2) html =
     (case apply_replacements re_sub rps1 html of
        Inl e \<Rightarrow> Inl e
      | Inr html' \<Rightarrow> apply_replacements re_sub rps2 html')"
  by (induction rps1 arbitrary: html) (auto split: sum.splits)

text \<open>
  Claim C9.  The rules are applied one after the other in list order, each to the text
  that the rules before it have produced: applying a list of rules followed by a second
  list is applying the second list to the result of the first.  For two case-sensitive
  rules of which the second searches for what the first one puts in, the second rule
  works on the replaced text; on a text that is the first search string, the result is
  the replacement of the second rule.  A rule with an empty (or missing) search string
  leaves the text as it is.
\<close>

theorem C9_replacement_order:
  "apply_replacements re_sub (rps1 @ rps2) html =
     (case apply_replacements re_sub rps1 html of
        Inl e \<Rightarrow> Inl e
      | Inr html' \<Rightarrow> apply_replacements re_sub rps2 html')
   \<and> (s1 \<noteq> [] \<and> s2 \<noteq> [] \<longrightarrow>
        apply_replacements re_sub
          [\<lparr>rp_search = Some s1, rp_replace = Some s2, rp_case_sensitive = cs1\<rparr>,
           \<lparr>rp_search = Some s2, rp_replace = Some r2, rp_case_sensitive = cs2\<rparr>] html
          = (case apply_replacement re_sub
                    \<lparr>rp_search = Some s1, rp_replace = Some s2, rp_case_sensitive = cs1\<rparr> html of
               Inl e \<Rightarrow> Inl e
             | Inr html' \<Rightarrow>
                 apply_replacement re_sub
                   \<lparr>rp_search = Some s2, rp_replace = Some r2, rp_case_sensitive = cs2\<rparr> html')
        \<and> (get_or cs1 True \<and> get_or cs2 True \<longrightarrow>
             apply_replacements re_sub
               [\<lparr>rp_search = Some s1, rp_replace = Some s2, rp_case_sensitive = cs1\<rparr>,
                \<lparr>rp_search = Some s2, rp_replace = Some r2, rp_case_sensitive = cs2\<rparr>] html
               = Inr (str_replace s2 r2 (str_replace s1 s2 html))
             \<and> apply_replacements re_sub
               [\<lparr>rp_search = Some s1, rp_replace = Some s2, rp_case_sensitive = cs1\<rparr>,
                \<lparr>rp_search = Some s2, rp_replace = Some r2, rp_case_sensitive = cs2\<rparr>] s1
               = Inr r2))
   \<and> (get_or (rp_search rp) [] = [] \<longrightarrow>
        apply_replacement re_sub rp html = Inr html
        \<and> apply_replacements re_sub (rp # rps) html = apply_replacements re_sub rps html)"
proof (intro conjI impI)
  show "apply_replacements re_sub (rps1 @ rps2) html =
     (case apply_replacements re_sub rps1 html of
        Inl e \<Rightarrow> Inl e
      | Inr html' \<Rightarrow> apply_replacements re_sub rps2 html')"
    by (rule apply_replacements_append)
next
  show "apply_replacements re_sub
          [\<lparr>rp_search = Some s1, rp_replace = Some s2, rp_case_sensitive = cs1\<rparr>,
           \<lparr>rp_search = Some s2, rp_replace = Some r2, rp_case_sensitive = cs2\<rparr>] html
          = (case apply_replacement re_sub
                    \<lparr>rp_search = Some s1, rp_replace = Some s2, rp_case_sensitive = cs1\<rparr> html of
               Inl e \<Rightarrow> Inl e
             | Inr html' \<Rightarrow>
                 apply_replacement re_sub
                   \<lparr>rp_search = Some s2, rp_replace = Some r2, rp_case_sensitive = cs2\<rparr> html')"
    by (simp split: sum.splits)
next
  assume a: "s1 \<noteq> [] \<and> s2 \<noteq> []" and c: "get_or cs1 True \<and> get_or cs2 True"
  then show "apply_replacements re_sub
               [\<lparr>rp_search = Some s1, rp_replace = Some s2, rp_case_sensitive = cs1\<rparr>,
                \<lparr>rp_search = Some s2, rp_replace = Some r2, rp_case_sensitive = cs2\<rparr>] html
               = Inr (str_replace s2 r2 (str_replace s1 s2 html))"
    by (simp add: apply_replacement_def get_or_def)
  from a c show "apply_replacements re_sub
               [\<lparr>rp_search = Some s1, rp_replace = Some s2, rp_case_sensitive = cs1\<rparr>,
                \<lparr>rp_search = Some s2, rp_replace = Some r2, rp_case_sensitive = cs2\<rparr>] s1
               = Inr r2"
    by (simp add: apply_replacement_def get_or_def str_replace_def replace_from_self)
next
  assume "get_or (rp_search rp) [] = []"
  then show "apply_replacement re_sub rp html = Inr html"
    by (simp add: apply_replacement_def)
  then show "apply_replacements re_sub (rp # rps) html = apply_replacements re_sub rps html"
    by simp
qed

text \<open>
  C9 at the rules \<open>cat \<rightarrow> dog\<close> and \<open>dog \<rightarrow> bird\<close> on the text \<open>cat dog\<close>: both words
  end as \<open>bird\<close>; and a rule without search string in front changes nothing.
\<close>

theorem C9_replacement_order_witness:
  "''cat'' \<noteq> [] \<and> ''dog'' \<noteq> [] \<and> get_or (Some True) True \<and> get_or None True
   \<and> get_or (rp_search \<lparr>rp_search = None, rp_replace = Some ''x'', rp_case_sensitive = None\<rparr>) []
       = []
   \<and> apply_replacements (\<lambda>search replace html. Inl ReError)
        [\<lparr>rp_search = Some ''cat'', rp_replace = Some ''dog'', rp_case_sensitive = Some True\<rparr>,
         \<lparr>rp_search = Some ''dog'', rp_replace = Some ''bird'', rp_case_sensitive = None\<rparr>]
        ''cat dog''
       = Inr ''bird bird''
   \<and> apply_replacement (\<lambda>search replace html. Inl ReError)
        \<lparr>rp_search = None, rp_replace = Some ''x'', rp_case_sensitive = None\<rparr> ''cat dog''
       = Inr ''cat dog''"
proof -
  have h: "''cat'' \<noteq> [] \<and> ''dog'' \<noteq> []" "get_or (Some True) True \<and> get_or None True"
    by (simp_all add: get_or_def)
  have e: "get_or (rp_search \<lparr>rp_search = None, rp_replace = Some ''x'',
                              rp_case_sensitive = None\<rparr>) [] = []"
    by (simp add: get_or_def)
  note t = C9_replacement_order [where ?s1.0 = "''cat''" and ?s2.0 = "''dog''" and ?r2.0 = "''bird''"
      and ?cs1.0 = "Some True" and ?cs2.0 = None and html = "''cat dog''"
      and re_sub = "\<lambda>search replace html. Inl ReError"
      and rp = "\<lparr>rp_search = None, rp_replace = Some ''x'', rp_case_sensitive = None\<rparr>"]
  note t2 = mp [OF t [THEN conjunct2, THEN conjunct1] h(1)]
  note t3 = mp [OF t2 [THEN conjunct2] h(2), THEN conjunct1]
  note t4 = mp [OF t [THEN conjunct2, THEN conjunct2] e, THEN conjunct1]
  have v: "str_replace ''dog'' ''bird'' (str_replace ''cat'' ''dog'' ''cat dog'') = ''bird bird''"
    by (simp add: str_replace_def)
  have r1: "apply_replacements (\<lambda>search replace html. Inl ReError)
        [\<lparr>rp_search = Some ''cat'', rp_replace = Some ''dog'', rp_case_sensitive = Some True\<rparr>,
         \<lparr>rp_search = Some ''dog'', rp_replace = Some ''bird'', rp_case_sensitive = None\<rparr>]
        ''cat dog''
       = Inr ''bird bird''"
    using t3 unfolding v .
  show ?thesis
    by (intro conjI h [THEN conjunct1] h [THEN conjunct2] e r1 t4)
qed

subsection \<open>List detection\<close>

lemma create_list_html_single:
  "create_list_html [(level, kind, txt)] =
     ''<'' @ tag_of (Some kind) @ ''>'' @ nl @ ''  <li>'' @ txt @ ''</li>'' @ nl
     @ ''</'' @ tag_of (Some kind) @ ''>''"
  by (simp add: create_list_html_def build_nested_list_def min_level_def item_level_def
                item_type_def item_text_def open_parts_def open_type_def close_started_def
                build_loop.simps [of _ _ 0] build_loop.simps [of _ _ "Suc 0"])

text \<open>
  Claim C10.  When the paragraph has a \<open>numPr\<close> with a \<open>numId\<close> and \<^verbatim>\<open>_get_list_info\<close>
  returns a list item, its kind is Bullet, whatever the numbering is; a document that
  consists of such a paragraph is rendered as a \<open>ul\<close> with one \<open>li\<close>.  A list item of
  kind Number is returned only for a paragraph without \<open>numId\<close> whose style name
  contains \<open>list number\<close> (in any case) or starts with \<open>List Number\<close>, and does not match
  the bullet names.
\<close>

theorem C10_numbering_is_bullet:
  "(p_numPr p = Some np \<and> np_numId np \<and> get_list_info p = Inr (Some (kind, level, txt)) \<longrightarrow>
      kind = Bullet
      \<and> convert_blocks cfg [Para p]
          = Inr (''<ul>'' @ nl @ ''  <li>'' @ txt @ ''</li>'' @ nl @ ''</ul>''))
   \<and> (get_list_info p = Inr (Some (Number, level, txt)) \<longrightarrow>
        \<not> (\<exists>np. p_numPr p = Some np \<and> np_numId np)
        \<and> (contains ''list number'' (lower (p_style_name p))
             \<or> prefix ''List Number'' (p_style_name p))
        \<and> \<not> (contains ''list bullet'' (lower (p_style_name p))
               \<or> prefix ''List Bullet'' (p_style_name p)))"
proof (intro conjI impI)
  assume a: "p_numPr p = Some np \<and> np_numId np \<and>
             get_list_info p = Inr (Some (kind, level, txt))"
  then show k: "kind = Bullet"
    by (auto simp: get_list_info_def split: option.splits)
  from a show "convert_blocks cfg [Para p]
          = Inr (''<ul>'' @ nl @ ''  <li>'' @ txt @ ''</li>'' @ nl @ ''</ul>'')"
    by (simp add: k convert_blocks_def dispatch_block_def close_open_list_def
                  create_list_html_single tag_of_def)
next
  assume a: "get_list_info p = Inr (Some (Number, level, txt))"
  then show "\<not> (\<exists>np. p_numPr p = Some np \<and> np_numId np)"
    by (auto simp: get_list_info_def split: option.splits if_splits)
  from a show "contains ''list number'' (lower (p_style_name p))
             \<or> prefix ''List Number'' (p_style_name p)"
    by (auto simp: get_list_info_def split: option.splits if_splits)
  from a show "\<not> (contains ''list bullet'' (lower (p_style_name p))
               \<or> prefix ''List Bullet'' (p_style_name p))"
    by (auto simp: get_list_info_def split: option.splits if_splits)
qed

lemmas paragraph_defs =
  get_list_info_def process_runs_def extract_hyperlinks_def extract_field_hyperlinks_def
  field_loop.simps py_int_def strip_def is_space_def is_digit_def digits_value_def
  style_level_def trailing_number_def lower_def lower_char_def

text \<open>
  C10 at a paragraph with the style \<open>List Number\<close> and numbering properties (level 0):
  it is an item of kind Bullet and the document is a \<open>ul\<close>; and at a paragraph
  with the style \<open>List Number 2\<close> without numbering properties: kind Number, level 1.
\<close>

theorem C10_numbering_is_bullet_witness:
  "p_numPr \<lparr>p_style_name = ''List Number'', p_text = ''One'',
            p_numPr = Some \<lparr>np_ilvl = Some (Some ''0''), np_numId = True\<rparr>,
            p_runs = [\<lparr>run_elem = 0, run_text = ''One'', run_bold = None, run_italic = None,
                       run_underline = None\<rparr>],
            p_hyperlink_elements = [], p_rels = (\<lambda>r. None), p_all_runs = []\<rparr>
     = Some \<lparr>np_ilvl = Some (Some ''0''), np_numId = True\<rparr>
   \<and> np_numId \<lparr>np_ilvl = Some (Some ''0''), np_numId = True\<rparr>
   \<and> get_list_info \<lparr>p_style_name = ''List Number'', p_text = ''One'',
            p_numPr = Some \<lparr>np_ilvl = Some (Some ''0''), np_numId = True\<rparr>,
            p_runs = [\<lparr>run_elem = 0, run_text = ''One'', run_bold = None, run_italic = None,
                       run_underline = None\<rparr>],
            p_hyperlink_elements = [], p_rels = (\<lambda>r. None), p_all_runs = []\<rparr>
     = Inr (Some (Bullet, 0, ''One''))
   \<and> convert_blocks
        \<lparr>heading_tag = None, paragraph_tag = None, qd_enabled = None, qd_threshold = None,
          qd_wrap_tag = None, qd_quote_types = None, replacements = []\<rparr>
        [Para \<lparr>p_style_name = ''List Number'', p_text = ''One'',
            p_numPr = Some \<lparr>np_ilvl = Some (Some ''0''), np_numId = True\<rparr>,
            p_runs = [\<lparr>run_elem = 0, run_text = ''One'', run_bold = None, run_italic = None,
                       run_underline = None\<rparr>],
            p_hyperlink_elements = [], p_rels = (\<lambda>r. None), p_all_runs = []\<rparr>]
     = Inr ''<ul>\<newline>  <li>One</li>\<newline></ul>''"
proof -
  let ?np = "\<lparr>np_ilvl = Some (Some ''0''), np_numId = True\<rparr>"
  let ?p = "\<lparr>p_style_name = ''List Number'', p_text = ''One'',
            p_numPr = Some ?np,
            p_runs = [\<lparr>run_elem = 0, run_text = ''One'', run_bold = None, run_italic = None,
                       run_underline = None\<rparr>],
            p_hyperlink_elements = [], p_rels = (\<lambda>r. None), p_all_runs = []\<rparr>"
  let ?cfg = "\<lparr>heading_tag = None, paragraph_tag = None, qd_enabled = None,
               qd_threshold = None, qd_wrap_tag = None, qd_quote_types = None,
               replacements = []\<rparr>"
  have g: "get_list_info ?p = Inr (Some (Bullet, 0, ''One''))"
    by (simp add: paragraph_defs consolidator_defs)
  have h: "p_numPr ?p = Some ?np \<and> np_numId ?np \<and>
           get_list_info ?p = Inr (Some (Bullet, 0, ''One''))"
    using g by simp
  have c: "convert_blocks ?cfg [Para ?p]
          = Inr (''<ul>'' @ nl @ ''  <li>'' @ ''One'' @ ''</li>'' @ nl @ ''</ul>'')"
    by (rule mp [OF C10_numbering_is_bullet [THEN conjunct1] h, THEN conjunct2])
  have "convert_blocks ?cfg [Para ?p] = Inr ''<ul>\<newline>  <li>One</li>\<newline></ul>''"
    unfolding c by (simp add: nl_def)
  with h show ?thesis by simp
qed

subsection \<open>Block Dispatcher\<close>

text \<open>
  Claim C7 as stated fails at two paragraphs with the style \<open>Heading 1\<close>.  The first has
  numbering properties with a \<open>numId\<close>: the list check of the loop comes before the
  heading check, so the paragraph is put into the list buffer and no heading is emitted.
  The second has only white space as text and nothing is emitted for it.
\<close>

theorem C7_heading_counterexample:
  "prefix ''Heading'' ''Heading 1''
   \<and> dispatch_block
        \<lparr>heading_tag = None, paragraph_tag = None, qd_enabled = None, qd_threshold = None,
          qd_wrap_tag = None, qd_quote_types = None, replacements = []\<rparr>
        \<lparr>d_html_parts = [], d_list_items = [], d_list_type = None\<rparr>
        (Para \<lparr>p_style_name = ''Heading 1'', p_text = ''Intro'',
               p_numPr = Some \<lparr>np_ilvl = Some (Some ''0''), np_numId = True\<rparr>,
               p_runs = [\<lparr>run_elem = 0, run_text = ''Intro'', run_bold = None,
                          run_italic = None, run_underline = None\<rparr>],
               p_hyperlink_elements = [], p_rels = (\<lambda>r. None), p_all_runs = []\<rparr>)
       = Inr \<lparr>d_html_parts = [], d_list_items = [(0, Bullet, ''Intro'')],
              d_list_type = Some Bullet\<rparr>
   \<and> dispatch_block
        \<lparr>heading_tag = None, paragraph_tag = None, qd_enabled = None, qd_threshold = None,
          qd_wrap_tag = None, qd_quote_types = None, replacements = []\<rparr>
        \<lparr>d_html_parts = [], d_list_items = [], d_list_type = None\<rparr>
        (Para \<lparr>p_style_name = ''Heading 1'', p_text = ''  '',
               p_numPr = None,
               p_runs = [\<lparr>run_elem = 0, run_text = ''  '', run_bold = None,
                          run_italic = None, run_underline = None\<rparr>],
               p_hyperlink_elements = [], p_rels = (\<lambda>r. None), p_all_runs = []\<rparr>)
       = Inr \<lparr>d_html_parts = [], d_list_items = [], d_list_type = None\<rparr>"
  by (simp add: dispatch_block_def paragraph_defs consolidator_defs convert_paragraph_def
                close_open_list_def append_html_def contains.simps)

text \<open>
  Claim C7, amended.  For a paragraph whose style name starts with \<open>Heading\<close>, that is
  not a list item for \<^verbatim>\<open>_get_list_info\<close> and whose trimmed text is not empty, the loop
  first appends the rendering of a non-empty list buffer and clears it, and then appends
  the heading tag of the configuration (\<open>h3\<close> when none is configured) around the escaped
  trimmed text.
\<close>

theorem C7_heading_amended:
  "prefix ''Heading'' (p_style_name p) \<and> get_list_info p = Inr None \<and> strip (p_text p) \<noteq> [] \<longrightarrow>
   dispatch_block cfg (d :: dispatcher) (Para p) =
     Inr \<lparr>d_html_parts =
            d_html_parts d
            @ (if d_list_items d = [] then [] else [create_list_html (d_list_items d)])
            @ [''<'' @ get_or (heading_tag cfg) ''h3'' @ ''>'' @ escape_html (strip (p_text p))
               @ ''</'' @ get_or (heading_tag cfg) ''h3'' @ ''>''],
          d_list_items = [],
          d_list_type = (if d_list_items d = [] then d_list_type d else None)\<rparr>"
  by (simp add: dispatch_block_def convert_paragraph_def close_open_list_def append_html_def
                Let_def)

text \<open>
  The amended C7 at the heading \<open>A & B\<close> with one bullet item waiting in the buffer.
\<close>

theorem C7_heading_amended_witness:
  "prefix ''Heading'' (p_style_name
        \<lparr>p_style_name = ''Heading 2'', p_text = '' A & B'', p_numPr = None,
          p_runs = [\<lparr>run_elem = 0, run_text = '' A & B'', run_bold = None,
                     run_italic = None, run_underline = None\<rparr>],
          p_hyperlink_elements = [], p_rels = (\<lambda>r. None), p_all_runs = []\<rparr>)
   \<and> get_list_info
        \<lparr>p_style_name = ''Heading 2'', p_text = '' A & B'', p_numPr = None,
          p_runs = [\<lparr>run_elem = 0, run_text = '' A & B'', run_bold = None,
                     run_italic = None, run_underline = None\<rparr>],
          p_hyperlink_elements = [], p_rels = (\<lambda>r. None), p_all_runs = []\<rparr> = Inr None
   \<and> strip '' A & B'' \<noteq> []
   \<and> dispatch_block
        \<lparr>heading_tag = None, paragraph_tag = None, qd_enabled = None, qd_threshold = None,
          qd_wrap_tag = None, qd_quote_types = None, replacements = []\<rparr>
        \<lparr>d_html_parts = [''<p>x</p>''], d_list_items = [(0, Bullet, ''i'')],
          d_list_type = Some Bullet\<rparr>
        (Para \<lparr>p_style_name = ''Heading 2'', p_text = '' A & B'', p_numPr = None,
          p_runs = [\<lparr>run_elem = 0, run_text = '' A & B'', run_bold = None,
                     run_italic = None, run_underline = None\<rparr>],
          p_hyperlink_elements = [], p_rels = (\<lambda>r. None), p_all_runs = []\<rparr>)
       = Inr \<lparr>d_html_parts = [''<p>x</p>'', ''<ul>\<newline>  <li>i</li>\<newline></ul>'',
                              ''<h3>A &amp; B</h3>''],
              d_list_items = [], d_list_type = None\<rparr>"
proof -
  let ?p = "\<lparr>p_style_name = ''Heading 2'', p_text = '' A & B'', p_numPr = None,
          p_runs = [\<lparr>run_elem = 0, run_text = '' A & B'', run_bold = None,
                     run_italic = None, run_underline = None\<rparr>],
          p_hyperlink_elements = [], p_rels = (\<lambda>r. None), p_all_runs = []\<rparr>"
  let ?cfg = "\<lparr>heading_tag = None, paragraph_tag = None, qd_enabled = None,
               qd_threshold = None, qd_wrap_tag = None, qd_quote_types = None,
               replacements = []\<rparr>"
  let ?d = "\<lparr>d_html_parts = [''<p>x</p>''], d_list_items = [(0, Bullet, ''i'')],
             d_list_type = Some Bullet\<rparr>"
  have h1: "prefix ''Heading'' (p_style_name ?p)" by simp
  have h2: "get_list_info ?p = Inr None"
    by (simp add: get_list_info_def lower_def lower_char_def)
  have h3: "strip '' A & B'' \<noteq> []"
    by (simp add: strip_def is_space_def)
  have h: "prefix ''Heading'' (p_style_name ?p) \<and> get_list_info ?p = Inr None \<and>
           strip (p_text ?p) \<noteq> []"
    using h1 h2 h3 by simp
  note t = mp [OF C7_heading_amended [of ?p ?cfg ?d] h]
  have v: "strip '' A & B'' = ''A & B''"
    by (simp add: strip_def is_space_def)
  have "dispatch_block ?cfg ?d (Para ?p)
       = Inr \<lparr>d_html_parts = [''<p>x</p>'', ''<ul>\<newline>  <li>i</li>\<newline></ul>'',
                              ''<h3>A &amp; B</h3>''],
              d_list_items = [], d_list_type = None\<rparr>"
    unfolding t
    by (simp add: v create_list_html_single get_or_def tag_of_def nl_def escape_html_def
                  str_replace_def)
  with h1 h2 h3 show ?thesis by simp
qed

subsection \<open>Quote detection\<close>

lemma count_from_single: "count_from [q] str = length (filter (\<lambda>c. c = q) str)"
  by (induction str) auto

lemma length_filter_disj:
  "(\<And>x. \<not> (P x \<and> Q x)) \<Longrightarrow>
   length (filter (\<lambda>x. P x \<or> Q x) xs) = length (filter P xs) + length (filter Q xs)"
  by (induction xs) auto

lemma sum_count_distinct:
  "distinct qts \<Longrightarrow> \<forall>q \<in> set qts. length q = 1 \<Longrightarrow>
   sum_list (map (\<lambda>qt. int (str_count str qt)) qts)
     = int (length (filter (\<lambda>c. [c] \<in> set qts) str))"
proof (induction qts)
  case Nil
  then show ?case by simp
next
  case (Cons q qs)
  from Cons.prems obtain a where q: "q = [a]"
    by (cases q) auto
  have d: "\<And>x. \<not> (x = a \<and> [x] \<in> set qs)"
    using Cons.prems(1) q by auto
  have "length (filter (\<lambda>c. [c] \<in> set (q # qs)) str)
          = length (filter (\<lambda>c. c = a \<or> [c] \<in> set qs) str)"
    by (simp add: q)
  also have "\<dots> = length (filter (\<lambda>c. c = a) str) + length (filter (\<lambda>c. [c] \<in> set qs) str)"
    by (rule length_filter_disj) (rule d)
  finally show ?case
    using Cons by (simp add: q str_count_def count_from_single)
qed

text \<open>
  The rule of \<^verbatim>\<open>_convert_paragraph\<close> itself.  With quote detection enabled, a
  paragraph that is not a heading and has a non-empty trimmed text is wrapped when the
  quote count of the trimmed text is at least the threshold, and is emitted as the bare
  paragraph tag when the count is the threshold minus one.  The count is the sum, over
  the entries of the quote-type list, of the occurrences of the entry in the text; for a
  list of distinct single characters it is the number of characters of the text that
  are quote characters.
\<close>

theorem quote_threshold_rule:
  "(py_bool (qd_enabled cfg) \<and> \<not> prefix ''Heading'' (p_style_name p) \<and> strip (p_text p) \<noteq> [] \<longrightarrow>
      (get_or (qd_threshold cfg) 3 \<le> count_quotes cfg (strip (p_text p)) \<longrightarrow>
         convert_paragraph cfg p =
           fst (parse_wrap_tag (get_or (qd_wrap_tag cfg) ''blockquote''))
           @ ''<'' @ get_or (paragraph_tag cfg) ''p'' @ ''>'' @ process_runs p
           @ ''</'' @ get_or (paragraph_tag cfg) ''p'' @ ''>''
           @ snd (parse_wrap_tag (get_or (qd_wrap_tag cfg) ''blockquote'')))
      \<and> (count_quotes cfg (strip (p_text p)) = get_or (qd_threshold cfg) 3 - 1 \<longrightarrow>
         convert_paragraph cfg p =
           ''<'' @ get_or (paragraph_tag cfg) ''p'' @ ''>'' @ process_runs p
           @ ''</'' @ get_or (paragraph_tag cfg) ''p'' @ ''>''))
   \<and> (qd_quote_types cfg = Some qts \<and> distinct qts \<and> (\<forall>q \<in> set qts. length q = 1) \<longrightarrow>
        count_quotes cfg str = int (length (filter (\<lambda>c. [c] \<in> set qts) str)))"
proof (intro conjI impI)
  assume a: "py_bool (qd_enabled cfg) \<and> \<not> prefix ''Heading'' (p_style_name p) \<and>
             strip (p_text p) \<noteq> []"
    and b: "get_or (qd_threshold cfg) 3 \<le> count_quotes cfg (strip (p_text p))"
  then show "convert_paragraph cfg p =
           fst (parse_wrap_tag (get_or (qd_wrap_tag cfg) ''blockquote''))
           @ ''<'' @ get_or (paragraph_tag cfg) ''p'' @ ''>'' @ process_runs p
           @ ''</'' @ get_or (paragraph_tag cfg) ''p'' @ ''>''
           @ snd (parse_wrap_tag (get_or (qd_wrap_tag cfg) ''blockquote''))"
    by (simp add: convert_paragraph_def Let_def split: prod.splits)
next
  assume a: "py_bool (qd_enabled cfg) \<and> \<not> prefix ''Heading'' (p_style_name p) \<and>
             strip (p_text p) \<noteq> []"
    and b: "count_quotes cfg (strip (p_text p)) = get_or (qd_threshold cfg) 3 - 1"
  then show "convert_paragraph cfg p =
           ''<'' @ get_or (paragraph_tag cfg) ''p'' @ ''>'' @ process_runs p
           @ ''</'' @ get_or (paragraph_tag cfg) ''p'' @ ''>''"
    by (simp add: convert_paragraph_def Let_def)
next
  assume "qd_quote_types cfg = Some qts \<and> distinct qts \<and> (\<forall>q \<in> set qts. length q = 1)"
  then show "count_quotes cfg str = int (length (filter (\<lambda>c. [c] \<in> set qts) str))"
    by (simp add: count_quotes_def get_or_def sum_count_distinct)
qed

text \<open>
  The rule with the threshold 3, the outer tag \<open>div class="quote"\<close> and the quote
  characters double quote and apostrophe: the text \<open>"b"'\<close> has three of them and is
  wrapped.
\<close>

theorem quote_threshold_rule_example:
  "py_bool (qd_enabled
       \<lparr>heading_tag = None, paragraph_tag = None, qd_enabled = Some True,
         qd_threshold = Some 3, qd_wrap_tag = Some ''div class=\"quote\"'',
         qd_quote_types = Some [[CHR 0x22], [CHR 0x27]], replacements = []\<rparr>)
   \<and> \<not> prefix ''Heading'' ''Normal''
   \<and> strip [CHR 0x22, CHR ''b'', CHR 0x22, CHR 0x27] \<noteq> []
   \<and> distinct [[CHR 0x22], [CHR 0x27]]
   \<and> map length [[CHR 0x22], [CHR 0x27]] = [1, 1]
   \<and> count_quotes
        \<lparr>heading_tag = None, paragraph_tag = None, qd_enabled = Some True,
          qd_threshold = Some 3, qd_wrap_tag = Some ''div class=\"quote\"'',
          qd_quote_types = Some [[CHR 0x22], [CHR 0x27]], replacements = []\<rparr>
        [CHR 0x22, CHR ''b'', CHR 0x22, CHR 0x27] = 3
   \<and> convert_paragraph
        \<lparr>heading_tag = None, paragraph_tag = None, qd_enabled = Some True,
          qd_threshold = Some 3, qd_wrap_tag = Some ''div class=\"quote\"'',
          qd_quote_types = Some [[CHR 0x22], [CHR 0x27]], replacements = []\<rparr>
        \<lparr>p_style_name = ''Normal'', p_text = [CHR 0x22, CHR ''b'', CHR 0x22, CHR 0x27],
          p_numPr = None,
          p_runs = [\<lparr>run_elem = 0, run_text = [CHR 0x22, CHR ''b'', CHR 0x22, CHR 0x27],
                     run_bold = None, run_italic = None, run_underline = None\<rparr>],
          p_hyperlink_elements = [], p_rels = (\<lambda>r. None), p_all_runs = []\<rparr>
       = ''<div class=\"quote\"><p>&quot;b&quot;&#39;</p></div>''"
proof -
  let ?t = "[CHR 0x22, CHR ''b'', CHR 0x22, CHR 0x27]"
  let ?qts = "[[CHR 0x22], [CHR 0x27]]"
  let ?cfg = "\<lparr>heading_tag = None, paragraph_tag = None, qd_enabled = Some True,
          qd_threshold = Some 3, qd_wrap_tag = Some ''div class=\"quote\"'',
          qd_quote_types = Some ?qts, replacements = []\<rparr>"
  let ?p = "\<lparr>p_style_name = ''Normal'', p_text = ?t, p_numPr = None,
          p_runs = [\<lparr>run_elem = 0, run_text = ?t,
                     run_bold = None, run_italic = None, run_underline = None\<rparr>],
          p_hyperlink_elements = [], p_rels = (\<lambda>r. None), p_all_runs = []\<rparr>"
  have s: "strip ?t = ?t"
    by (simp add: strip_def is_space_def)
  have h1: "py_bool (qd_enabled ?cfg) \<and> \<not> prefix ''Heading'' (p_style_name ?p) \<and>
            strip (p_text ?p) \<noteq> []"
    by (simp add: py_bool_def s)
  have h2: "qd_quote_types ?cfg = Some ?qts \<and> distinct ?qts \<and> (\<forall>q \<in> set ?qts. length q = 1)"
    by simp
  note t = quote_threshold_rule [of ?cfg ?p ?qts ?t]
  have c: "count_quotes ?cfg ?t = 3"
    using mp [OF t [THEN conjunct2] h2] by simp
  have h3: "get_or (qd_threshold ?cfg) 3 \<le> count_quotes ?cfg (strip (p_text ?p))"
    by (simp add: s c get_or_def)
  note w = mp [OF mp [OF t [THEN conjunct1] h1, THEN conjunct1] h3]
  have pr: "process_runs ?p = ''&quot;b&quot;&#39;''"
    by (simp add: paragraph_defs consolidator_defs)
  have "convert_paragraph ?cfg ?p = ''<div class=\"quote\"><p>&quot;b&quot;&#39;</p></div>''"
    unfolding w pr
    by (simp add: parse_wrap_tag_def get_or_def strip_def is_space_def)
  with h1 h2 c s show ?thesis
    by simp
qed

text \<open>
  Claim C8 as stated fails in three places where the code has a guard or a rule of its
  own.  A paragraph with a list style is put into the list buffer before
  \<^verbatim>\<open>_convert_paragraph\<close> is reached, so it is never wrapped, however many quote
  characters it has (here four, with the threshold 3).  A paragraph whose trimmed text
  is empty is suppressed, also with the threshold 0.  And the count is a count of
  occurrences of the configured entries: with the two-apostrophe mark as the only entry,
  a text with four apostrophes has the count 2 and is not wrapped at the threshold 3.
\<close>

theorem C8_quote_counterexample:
  "\<not> prefix ''Heading'' ''List Bullet''
   \<and> length (filter (\<lambda>c. [c] \<in> set [[CHR 0x22]])
               [CHR 0x22, CHR ''a'', CHR 0x22, CHR '' '', CHR 0x22, CHR ''b'', CHR 0x22]) = 4
   \<and> convert_blocks
        \<lparr>heading_tag = None, paragraph_tag = None, qd_enabled = Some True,
          qd_threshold = Some 3, qd_wrap_tag = None, qd_quote_types = Some [[CHR 0x22]],
          replacements = []\<rparr>
        [Para \<lparr>p_style_name = ''List Bullet'',
               p_text = [CHR 0x22, CHR ''a'', CHR 0x22, CHR '' '', CHR 0x22, CHR ''b'', CHR 0x22],
               p_numPr = None,
               p_runs = [\<lparr>run_elem = 0,
                          run_text = [CHR 0x22, CHR ''a'', CHR 0x22, CHR '' '', CHR 0x22,
                                      CHR ''b'', CHR 0x22],
                          run_bold = None, run_italic = None, run_underline = None\<rparr>],
               p_hyperlink_elements = [], p_rels = (\<lambda>r. None), p_all_runs = []\<rparr>]
       = Inr ''<ul>\<newline>  <li>&quot;a&quot; &quot;b&quot;</li>\<newline></ul>''
   \<and> convert_blocks
        \<lparr>heading_tag = None, paragraph_tag = None, qd_enabled = Some True,
          qd_threshold = Some 0, qd_wrap_tag = None, qd_quote_types = Some [[CHR 0x22]],
          replacements = []\<rparr>
        [Para \<lparr>p_style_name = ''Normal'', p_text = '' '', p_numPr = None,
               p_runs = [\<lparr>run_elem = 0, run_text = '' '', run_bold = None,
                          run_italic = None, run_underline = None\<rparr>],
               p_hyperlink_elements = [], p_rels = (\<lambda>r. None), p_all_runs = []\<rparr>]
       = Inr []
   \<and> count_quotes
        \<lparr>heading_tag = None, paragraph_tag = None, qd_enabled = Some True,
          qd_threshold = Some 3, qd_wrap_tag = None,
          qd_quote_types = Some [[CHR 0x27, CHR 0x27]], replacements = []\<rparr>
        [CHR 0x27, CHR 0x27, CHR ''a'', CHR 0x27, CHR 0x27] = 2
   \<and> convert_blocks
        \<lparr>heading_tag = None, paragraph_tag = None, qd_enabled = Some True,
          qd_threshold = Some 3, qd_wrap_tag = None,
          qd_quote_types = Some [[CHR 0x27, CHR 0x27]], replacements = []\<rparr>
        [Para \<lparr>p_style_name = ''Normal'',
               p_text = [CHR 0x27, CHR 0x27, CHR ''a'', CHR 0x27, CHR 0x27], p_numPr = None,
               p_runs = [\<lparr>run_elem = 0,
                          run_text = [CHR 0x27, CHR 0x27, CHR ''a'', CHR 0x27, CHR 0x27],
                          run_bold = None, run_italic = None, run_underline = None\<rparr>],
               p_hyperlink_elements = [], p_rels = (\<lambda>r. None), p_all_runs = []\<rparr>]
       = Inr ''<p>&#39;&#39;a&#39;&#39;</p>''"
  by code_simp

lemma parse_wrap_tag_eq:
  "parse_wrap_tag wrap_tag =
     (''<'' @ strip wrap_tag @ ''>'',
      ''</'' @ (if CHR '' '' \<in> set (strip wrap_tag)
                then takeWhile (\<lambda>c. \<not> is_space c) (strip wrap_tag)
                else strip wrap_tag) @ ''>'')"
  by (simp add: parse_wrap_tag_def Let_def)

text \<open>
  Claim C8, amended.  Let quote detection be enabled and the quote types be configured
  as distinct single characters.  A paragraph that is not a list item for
  \<^verbatim>\<open>_get_list_info\<close>, whose style name does not start with \<open>Heading\<close> and whose
  trimmed text is not empty, is emitted after the flush of the list buffer as follows.
  When the number of quote characters in the trimmed text is at least the threshold
  (3 when none is configured; exactly the threshold suffices), the paragraph tag is
  wrapped: in front of it stands the trimmed wrap tag in angle brackets, behind it the
  closing tag of the first word of the wrap tag (of the whole wrap tag when it holds no
  space).  When the number is below the threshold, in particular the threshold minus
  one, the bare paragraph tag is emitted.
\<close>

theorem C8_quote_threshold_amended:
  "py_bool (qd_enabled cfg) \<and> qd_quote_types cfg = Some qts \<and> distinct qts
   \<and> (\<forall>q \<in> set qts. length q = 1)
   \<and> get_list_info p = Inr None \<and> \<not> prefix ''Heading'' (p_style_name p)
   \<and> strip (p_text p) \<noteq> [] \<longrightarrow>
   (get_or (qd_threshold cfg) 3
      \<le> int (length (filter (\<lambda>c. [c] \<in> set qts) (strip (p_text p)))) \<longrightarrow>
    dispatch_block cfg (d :: dispatcher) (Para p) =
      Inr ((close_open_list d)
           \<lparr>d_html_parts := d_html_parts (close_open_list d) @
              [''<'' @ strip (get_or (qd_wrap_tag cfg) ''blockquote'') @ ''>''
               @ ''<'' @ get_or (paragraph_tag cfg) ''p'' @ ''>'' @ process_runs p
               @ ''</'' @ get_or (paragraph_tag cfg) ''p'' @ ''>''
               @ ''</''
               @ (if CHR '' '' \<in> set (strip (get_or (qd_wrap_tag cfg) ''blockquote''))
                  then takeWhile (\<lambda>c. \<not> is_space c)
                         (strip (get_or (qd_wrap_tag cfg) ''blockquote''))
                  else strip (get_or (qd_wrap_tag cfg) ''blockquote''))
               @ ''>'']\<rparr>))
   \<and> (int (length (filter (\<lambda>c. [c] \<in> set qts) (strip (p_text p))))
        < get_or (qd_threshold cfg) 3 \<longrightarrow>
      dispatch_block cfg d (Para p) =
        Inr ((close_open_list d)
             \<lparr>d_html_parts := d_html_parts (close_open_list d) @
                [''<'' @ get_or (paragraph_tag cfg) ''p'' @ ''>'' @ process_runs p
                 @ ''</'' @ get_or (paragraph_tag cfg) ''p'' @ ''>'']\<rparr>))"
proof (intro impI conjI)
  assume h: "py_bool (qd_enabled cfg) \<and> qd_quote_types cfg = Some qts \<and> distinct qts
   \<and> (\<forall>q \<in> set qts. length q = 1)
   \<and> get_list_info p = Inr None \<and> \<not> prefix ''Heading'' (p_style_name p)
   \<and> strip (p_text p) \<noteq> []"
  then have c: "count_quotes cfg (strip (p_text p))
                 = int (length (filter (\<lambda>c. [c] \<in> set qts) (strip (p_text p))))"
    by (simp add: count_quotes_def get_or_def sum_count_distinct)
  {
    assume "get_or (qd_threshold cfg) 3
      \<le> int (length (filter (\<lambda>c. [c] \<in> set qts) (strip (p_text p))))"
    with h c show "dispatch_block cfg d (Para p) =
      Inr ((close_open_list d)
           \<lparr>d_html_parts := d_html_parts (close_open_list d) @
              [''<'' @ strip (get_or (qd_wrap_tag cfg) ''blockquote'') @ ''>''
               @ ''<'' @ get_or (paragraph_tag cfg) ''p'' @ ''>'' @ process_runs p
               @ ''</'' @ get_or (paragraph_tag cfg) ''p'' @ ''>''
               @ ''</''
               @ (if CHR '' '' \<in> set (strip (get_or (qd_wrap_tag cfg) ''blockquote''))
                  then takeWhile (\<lambda>c. \<not> is_space c)
                         (strip (get_or (qd_wrap_tag cfg) ''blockquote''))
                  else strip (get_or (qd_wrap_tag cfg) ''blockquote''))
               @ ''>'']\<rparr>)"
      by (simp add: dispatch_block_def convert_paragraph_def parse_wrap_tag_eq append_html_def
                    Let_def)
  }
  {
    assume "int (length (filter (\<lambda>c. [c] \<in> set qts) (strip (p_text p))))
        < get_or (qd_threshold cfg) 3"
    with h c show "dispatch_block cfg d (Para p) =
        Inr ((close_open_list d)
             \<lparr>d_html_parts := d_html_parts (close_open_list d) @
                [''<'' @ get_or (paragraph_tag cfg) ''p'' @ ''>'' @ process_runs p
                 @ ''</'' @ get_or (paragraph_tag cfg) ''p'' @ ''>'']\<rparr>)"
      by (simp add: dispatch_block_def convert_paragraph_def append_html_def Let_def)
  }
qed

text \<open>
  The amended C8 with the threshold 3, the wrap tag \<open>div class="quote"\<close> and the quote
  characters double quote and apostrophe: the text \<open>"b"'\<close> has three quote characters
  and is wrapped in the \<open>div\<close>; the text \<open>"b"\<close> has two and is not wrapped.
\<close>

theorem C8_quote_threshold_amended_witness:
  "distinct [[CHR 0x22], [CHR 0x27]] \<and> map length [[CHR 0x22], [CHR 0x27]] = [1, 1]
   \<and> length (filter (\<lambda>c. [c] \<in> set [[CHR 0x22], [CHR 0x27]])
               (strip [CHR 0x22, CHR ''b'', CHR 0x22, CHR 0x27])) = 3
   \<and> length (filter (\<lambda>c. [c] \<in> set [[CHR 0x22], [CHR 0x27]])
               (strip [CHR 0x22, CHR ''b'', CHR 0x22])) = 2
   \<and> dispatch_block
        \<lparr>heading_tag = None, paragraph_tag = None, qd_enabled = Some True,
          qd_threshold = Some 3, qd_wrap_tag = Some ''div class=\"quote\"'',
          qd_quote_types = Some [[CHR 0x22], [CHR 0x27]], replacements = []\<rparr>
        \<lparr>d_html_parts = [], d_list_items = [], d_list_type = None\<rparr>
        (Para \<lparr>p_style_name = ''Normal'', p_text = [CHR 0x22, CHR ''b'', CHR 0x22, CHR 0x27],
               p_numPr = None,
               p_runs = [\<lparr>run_elem = 0, run_text = [CHR 0x22, CHR ''b'', CHR 0x22, CHR 0x27],
                          run_bold = None, run_italic = None, run_underline = None\<rparr>],
               p_hyperlink_elements = [], p_rels = (\<lambda>r. None), p_all_runs = []\<rparr>)
       = Inr \<lparr>d_html_parts = [''<div class=\"quote\"><p>&quot;b&quot;&#39;</p></div>''],
              d_list_items = [], d_list_type = None\<rparr>
   \<and> dispatch_block
        \<lparr>heading_tag = None, paragraph_tag = None, qd_enabled = Some True,
          qd_threshold = Some 3, qd_wrap_tag = Some ''div class=\"quote\"'',
          qd_quote_types = Some [[CHR 0x22], [CHR 0x27]], replacements = []\<rparr>
        \<lparr>d_html_parts = [], d_list_items = [], d_list_type = None\<rparr>
        (Para \<lparr>p_style_name = ''Normal'', p_text = [CHR 0x22, CHR ''b'', CHR 0x22],
               p_numPr = None,
               p_runs = [\<lparr>run_elem = 0, run_text = [CHR 0x22, CHR ''b'', CHR 0x22],
                          run_bold = None, run_italic = None, run_underline = None\<rparr>],
               p_hyperlink_elements = [], p_rels = (\<lambda>r. None), p_all_runs = []\<rparr>)
       = Inr \<lparr>d_html_parts = [''<p>&quot;b&quot;</p>''],
              d_list_items = [], d_list_type = None\<rparr>"
proof -
  let ?qts = "[[CHR 0x22], [CHR 0x27]]"
  let ?cfg = "\<lparr>heading_tag = None, paragraph_tag = None, qd_enabled = Some True,
          qd_threshold = Some 3, qd_wrap_tag = Some ''div class=\"quote\"'',
          qd_quote_types = Some ?qts, replacements = []\<rparr>"
  let ?d = "\<lparr>d_html_parts = [], d_list_items = [], d_list_type = None\<rparr>"
  let ?t3 = "[CHR 0x22, CHR ''b'', CHR 0x22, CHR 0x27]"
  let ?t2 = "[CHR 0x22, CHR ''b'', CHR 0x22]"
  let ?p3 = "\<lparr>p_style_name = ''Normal'', p_text = ?t3, p_numPr = None,
               p_runs = [\<lparr>run_elem = 0, run_text = ?t3,
                          run_bold = None, run_italic = None, run_underline = None\<rparr>],
               p_hyperlink_elements = [], p_rels = (\<lambda>r. None), p_all_runs = []\<rparr>"
  let ?p2 = "\<lparr>p_style_name = ''Normal'', p_text = ?t2, p_numPr = None,
               p_runs = [\<lparr>run_elem = 0, run_text = ?t2,
                          run_bold = None, run_italic = None, run_underline = None\<rparr>],
               p_hyperlink_elements = [], p_rels = (\<lambda>r. None), p_all_runs = []\<rparr>"
  have q: "distinct ?qts" "map length ?qts = [1, 1]"
    by simp_all
  have s3: "strip ?t3 = ?t3" and s2: "strip ?t2 = ?t2"
    by (simp_all add: strip_def is_space_def)
  have n3: "length (filter (\<lambda>c. [c] \<in> set ?qts) (strip ?t3)) = 3"
    and n2: "length (filter (\<lambda>c. [c] \<in> set ?qts) (strip ?t2)) = 2"
    by (simp_all add: s3 s2)
  have g3: "get_list_info ?p3 = Inr None" and g2: "get_list_info ?p2 = Inr None"
    by (simp_all add: get_list_info_def lower_def lower_char_def)
  have h3: "py_bool (qd_enabled ?cfg) \<and> qd_quote_types ?cfg = Some ?qts \<and> distinct ?qts
     \<and> (\<forall>q \<in> set ?qts. length q = 1)
     \<and> get_list_info ?p3 = Inr None \<and> \<not> prefix ''Heading'' (p_style_name ?p3)
     \<and> strip (p_text ?p3) \<noteq> []"
    using g3 by (simp add: py_bool_def s3)
  have h2: "py_bool (qd_enabled ?cfg) \<and> qd_quote_types ?cfg = Some ?qts \<and> distinct ?qts
     \<and> (\<forall>q \<in> set ?qts. length q = 1)
     \<and> get_list_info ?p2 = Inr None \<and> \<not> prefix ''Heading'' (p_style_name ?p2)
     \<and> strip (p_text ?p2) \<noteq> []"
    using g2 by (simp add: py_bool_def s2)
  have a3: "get_or (qd_threshold ?cfg) 3
      \<le> int (length (filter (\<lambda>c. [c] \<in> set ?qts) (strip (p_text ?p3))))"
    by (simp add: get_or_def s3)
  have a2: "int (length (filter (\<lambda>c. [c] \<in> set ?qts) (strip (p_text ?p2))))
      < get_or (qd_threshold ?cfg) 3"
    by (simp add: get_or_def s2)
  note e3 = mp [OF mp [OF C8_quote_threshold_amended [of ?cfg ?qts ?p3 ?d], THEN conjunct1] a3, OF h3]
  note e2 = mp [OF mp [OF C8_quote_threshold_amended [of ?cfg ?qts ?p2 ?d], THEN conjunct2] a2, OF h2]
  have pr3: "process_runs ?p3 = ''&quot;b&quot;&#39;''"
    and pr2: "process_runs ?p2 = ''&quot;b&quot;''"
    by (simp_all add: paragraph_defs consolidator_defs)
  have w: "strip ''div class=\"quote\"'' = ''div class=\"quote\"''"
    by (simp add: strip_def is_space_def)
  have r3: "dispatch_block ?cfg ?d (Para ?p3)
       = Inr \<lparr>d_html_parts = [''<div class=\"quote\"><p>&quot;b&quot;&#39;</p></div>''],
              d_list_items = [], d_list_type = None\<rparr>"
    unfolding e3 pr3
    by (simp add: close_open_list_def get_or_def w is_space_def)
  have r2: "dispatch_block ?cfg ?d (Para ?p2)
       = Inr \<lparr>d_html_parts = [''<p>&quot;b&quot;</p>''],
              d_list_items = [], d_list_type = None\<rparr>"
    unfolding e2 pr2
    by (simp add: close_open_list_def get_or_def)
  show ?thesis
    by (intro conjI q n3 n2 r3 r2)
qed

text \<open>
  With no quote types configured the count runs over the default list, in which the
  double quote stands three times and the apostrophe twice: a text with one double
  quote has the count 3, and its paragraph is wrapped at the threshold 3.  The amended
  C8 is therefore stated for configured quote types.
\<close>

lemma default_quote_types_count:
  "count_quotes
        \<lparr>heading_tag = None, paragraph_tag = None, qd_enabled = Some True,
          qd_threshold = Some 3, qd_wrap_tag = None, qd_quote_types = None,
          replacements = []\<rparr>
        [CHR 0x22, CHR ''b''] = 3
   \<and> dispatch_block
        \<lparr>heading_tag = None, paragraph_tag = None, qd_enabled = Some True,
          qd_threshold = Some 3, qd_wrap_tag = None, qd_quote_types = None,
          replacements = []\<rparr>
        \<lparr>d_html_parts = [], d_list_items = [], d_list_type = None\<rparr>
        (Para \<lparr>p_style_name = ''Normal'', p_text = [CHR 0x22, CHR ''b''], p_numPr = None,
               p_runs = [\<lparr>run_elem = 0, run_text = [CHR 0x22, CHR ''b''],
                          run_bold = None, run_italic = None, run_underline = None\<rparr>],
               p_hyperlink_elements = [], p_rels = (\<lambda>r. None), p_all_runs = []\<rparr>)
       = Inr \<lparr>d_html_parts = [''<blockquote><p>&quot;b</p></blockquote>''],
              d_list_items = [], d_list_type = None\<rparr>"
  by code_simp

subsection \<open>Hyperlinks that the walk does not visit\<close>

lemma find_run_hyperlink_skip:
  "link_runs h = [] \<Longrightarrow>
   find_run_hyperlink (hs1 @ [h] @ hs2) e = find_run_hyperlink (hs1 @ hs2) e"
  by (induction hs1) auto

lemma process_run_skip:
  "link_runs h = [] \<Longrightarrow> process_run (hs1 @ [h] @ hs2) w r = process_run (hs1 @ hs2) w r"
  unfolding process_run_def by (simp only: find_run_hyperlink_skip)

lemma walk_runs_skip:
  "link_runs h = [] \<Longrightarrow> walk_runs (hs1 @ [h] @ hs2) w runs = walk_runs (hs1 @ hs2) w runs"
  by (induction runs arbitrary: w) (simp_all only: walk_runs.simps process_run_skip)

lemma find_run_hyperlink_id:
  "find_run_hyperlink hls e = Some (lid, url, ltext) \<Longrightarrow> lid \<in> link_id ` set hls"
  by (induction hls) (auto split: if_splits)

lemma processed_flush [simp]: "processed_hyperlinks (flush_group w) = processed_hyperlinks w"
  by (simp add: flush_group_def Let_def)

lemma processed_close [simp]: "processed_hyperlinks (close_hyperlink w) = processed_hyperlinks w"
  by (simp add: close_hyperlink_def split: option.splits)

lemma processed_process_run_eq:
  "processed_hyperlinks (process_run hls w r) =
     processed_hyperlinks
       (case find_run_hyperlink hls (run_elem r) of
          None \<Rightarrow> w
        | Some (lid, url, ltext) \<Rightarrow>
            w\<lparr>processed_hyperlinks := insert lid (processed_hyperlinks w)\<rparr>)"
  by (simp add: process_run_def Let_def)

lemma processed_process_run:
  "processed_hyperlinks (process_run hls w r) \<subseteq> processed_hyperlinks w \<union> link_id ` set hls"
proof (cases "find_run_hyperlink hls (run_elem r)")
  case None
  then show ?thesis
    by (simp add: processed_process_run_eq)
next
  case (Some a)
  obtain lid url ltext where a: "a = (lid, url, ltext)"
    by (cases a) auto
  with Some have "lid \<in> link_id ` set hls"
    by (auto dest: find_run_hyperlink_id)
  with Some a show ?thesis
    by (auto simp: processed_process_run_eq)
qed

lemma processed_walk_runs:
  "processed_hyperlinks (walk_runs hls w runs) \<subseteq> processed_hyperlinks w \<union> link_id ` set hls"
proof (induction runs arbitrary: w)
  case Nil
  then show ?case by simp
next
  case (Cons r rs)
  have "processed_hyperlinks (walk_runs hls (process_run hls w r) rs)
          \<subseteq> processed_hyperlinks (process_run hls w r) \<union> link_id ` set hls"
    by (rule Cons.IH)
  also have "\<dots> \<subseteq> processed_hyperlinks w \<union> link_id ` set hls"
    using processed_process_run [of hls w r] by auto
  finally show ?case by simp
qed

lemma unprocessed_links_append:
  "unprocessed_links (hs1 @ hs2) P = unprocessed_links hs1 P @ unprocessed_links hs2 P"
  by (simp add: unprocessed_links_def)

lemma consolidate_unvisited:
  assumes "lid \<notin> link_id ` set (hs1 @ hs2)" and "ltext \<noteq> []"
  shows "consolidate_runs (hs1 @ [(lid, url, [], ltext)] @ hs2) runs =
           concat (result (close_hyperlink (flush_group (walk_runs (hs1 @ hs2) init_walk runs))))
           @ concat (unprocessed_links hs1
               (processed_hyperlinks (walk_runs (hs1 @ hs2) init_walk runs)))
           @ ('' '' @ format_link url ltext)
           @ concat (unprocessed_links hs2
               (processed_hyperlinks (walk_runs (hs1 @ hs2) init_walk runs)))"
proof -
  let ?h = "(lid, url, [], ltext) :: hyperlink"
  let ?w = "walk_runs (hs1 @ hs2) init_walk runs"
  have lr: "link_runs ?h = []"
    by (simp add: link_runs_def)
  have weq: "walk_runs (hs1 @ [?h] @ hs2) init_walk runs = ?w"
    using lr by (rule walk_runs_skip)
  have "processed_hyperlinks ?w \<subseteq> processed_hyperlinks init_walk \<union> link_id ` set (hs1 @ hs2)"
    by (rule processed_walk_runs)
  then have np: "lid \<notin> processed_hyperlinks ?w"
    using assms(1) by (auto simp: init_walk_def)
  have u: "unprocessed_links [?h] (processed_hyperlinks ?w) = ['' '', format_link url ltext]"
    using np assms(2)
    by (simp add: unprocessed_links_def link_id_def link_text_def link_url_def)
  have ap: "unprocessed_links (hs1 @ [?h] @ hs2) (processed_hyperlinks ?w) =
              unprocessed_links hs1 (processed_hyperlinks ?w)
              @ ['' '', format_link url ltext]
              @ unprocessed_links hs2 (processed_hyperlinks ?w)"
    by (simp only: unprocessed_links_append u)
  show ?thesis
    unfolding consolidate_runs_def Let_def weq processed_close processed_flush ap
    by simp
qed

text \<open>
  A hyperlink span without member runs, with the target \<open>http://x\<close> and the fallback
  text \<open>Click\<close>, whose identity no other span of the paragraph has, is not visited by
  the walk.  It does not change what the walk produces, and after the walk it is
  appended as a space and \<open><a href="http://x">Click</a>\<close>, between the unvisited spans
  extracted before it and those extracted after it.  For a paragraph with the run
  \<open>See\<close> and such a hyperlink element the whole output is
  \<open>See <a href="http://x">Click</a>\<close>.
\<close>

theorem unvisited_span_appended:
  "(lid \<notin> link_id ` set (hs1 @ hs2) \<longrightarrow>
      consolidate_runs (hs1 @ [(lid, ''http://x'', [], ''Click'')] @ hs2) runs =
        concat (result (close_hyperlink (flush_group (walk_runs (hs1 @ hs2) init_walk runs))))
        @ concat (unprocessed_links hs1
            (processed_hyperlinks (walk_runs (hs1 @ hs2) init_walk runs)))
        @ '' <a href=\"http://x\">Click</a>''
        @ concat (unprocessed_links hs2
            (processed_hyperlinks (walk_runs (hs1 @ hs2) init_walk runs))))
   \<and> process_runs
        \<lparr>p_style_name = ''Normal'', p_text = ''See'', p_numPr = None,
          p_runs = [\<lparr>run_elem = 0, run_text = ''See'', run_bold = None, run_italic = None,
                     run_underline = None\<rparr>],
          p_hyperlink_elements =
            [\<lparr>hl_r_id = Some ''rId1'', hl_anchor = None, hl_run_elements = [],
              hl_text = Some ''Click''\<rparr>],
          p_rels = (\<lambda>r. if r = ''rId1'' then Some ''http://x'' else None),
          p_all_runs = [\<lparr>x_elem = 0, x_fld_char_type = None, x_instr_text = None,
                         x_t_texts = [''See'']\<rparr>]\<rparr>
       = ''See <a href=\"http://x\">Click</a>''"
proof (intro conjI impI)
  have f: "'' '' @ format_link ''http://x'' ''Click'' = '' <a href=\"http://x\">Click</a>''"
    by (simp add: format_link_def)
  assume "lid \<notin> link_id ` set (hs1 @ hs2)"
  then have "consolidate_runs (hs1 @ [(lid, ''http://x'', [], ''Click'')] @ hs2) runs =
        concat (result (close_hyperlink (flush_group (walk_runs (hs1 @ hs2) init_walk runs))))
        @ concat (unprocessed_links hs1
            (processed_hyperlinks (walk_runs (hs1 @ hs2) init_walk runs)))
        @ ('' '' @ format_link ''http://x'' ''Click'')
        @ concat (unprocessed_links hs2
            (processed_hyperlinks (walk_runs (hs1 @ hs2) init_walk runs)))"
    by (intro consolidate_unvisited) simp_all
  then show "consolidate_runs (hs1 @ [(lid, ''http://x'', [], ''Click'')] @ hs2) runs =
        concat (result (close_hyperlink (flush_group (walk_runs (hs1 @ hs2) init_walk runs))))
        @ concat (unprocessed_links hs1
            (processed_hyperlinks (walk_runs (hs1 @ hs2) init_walk runs)))
        @ '' <a href=\"http://x\">Click</a>''
        @ concat (unprocessed_links hs2
            (processed_hyperlinks (walk_runs (hs1 @ hs2) init_walk runs)))"
    unfolding f .
next
  show "process_runs
        \<lparr>p_style_name = ''Normal'', p_text = ''See'', p_numPr = None,
          p_runs = [\<lparr>run_elem = 0, run_text = ''See'', run_bold = None, run_italic = None,
                     run_underline = None\<rparr>],
          p_hyperlink_elements =
            [\<lparr>hl_r_id = Some ''rId1'', hl_anchor = None, hl_run_elements = [],
              hl_text = Some ''Click''\<rparr>],
          p_rels = (\<lambda>r. if r = ''rId1'' then Some ''http://x'' else None),
          p_all_runs = [\<lparr>x_elem = 0, x_fld_char_type = None, x_instr_text = None,
                         x_t_texts = [''See'']\<rparr>]\<rparr>
       = ''See <a href=\"http://x\">Click</a>''"
    by (simp add: paragraph_defs consolidator_defs str_truthy_def py_format_def
                  show_nat.simps)
qed

text \<open>
  The same in a paragraph whose second run belongs to a field hyperlink extracted after
  the empty one: the visited hyperlink is emitted in the walk, the empty one after it.
\<close>

theorem unvisited_span_appended_example:
  "''rId1_0'' \<notin> link_id ` set ([] @ [(''field_0'', ''http://y'', [1], ''Go'')])
   \<and> consolidate_runs
        ([] @ [(''rId1_0'', ''http://x'', [], ''Click'')]
            @ [(''field_0'', ''http://y'', [1], ''Go'')])
        [\<lparr>run_elem = 0, run_text = ''See '', run_bold = None, run_italic = None,
          run_underline = None\<rparr>,
         \<lparr>run_elem = 1, run_text = ''Go'', run_bold = None, run_italic = None,
          run_underline = None\<rparr>]
       = ''See <a href=\"http://y\">Go</a> <a href=\"http://x\">Click</a>''"
proof -
  let ?hs2 = "[(''field_0'', ''http://y'', [1], ''Go'')] :: hyperlink list"
  let ?runs = "[\<lparr>run_elem = 0, run_text = ''See '', run_bold = None, run_italic = None,
          run_underline = None\<rparr>,
         \<lparr>run_elem = 1, run_text = ''Go'', run_bold = None, run_italic = None,
          run_underline = None\<rparr>]"
  have h: "''rId1_0'' \<notin> link_id ` set ([] @ ?hs2)"
    by (simp add: link_id_def)
  note t = mp [OF unvisited_span_appended [of "''rId1_0''" "[]" ?hs2 ?runs, THEN conjunct1] h]
  have w: "walk_runs ([] @ ?hs2) init_walk ?runs =
             \<lparr>result = [''See ''], current_hyperlink = Some (''field_0'', ''http://y'', ''Go''),
               hyperlink_text = [], processed_hyperlinks = {''field_0''},
               group_text = [''Go''], group_bold = Some False, group_italic = Some False,
               group_underline = Some False,
               group_hyperlink = Some (''field_0'', ''http://y'', ''Go'')\<rparr>"
    by (simp add: consolidator_defs)
  have "consolidate_runs ([] @ [(''rId1_0'', ''http://x'', [], ''Click'')] @ ?hs2) ?runs
       = ''See <a href=\"http://y\">Go</a> <a href=\"http://x\">Click</a>''"
    unfolding t w
    by (simp add: consolidator_defs)
  with h show ?thesis by (rule conjI)
qed

text \<open>
  Claim C4 is not met by the code when the identity of the empty hyperlink element is
  also the identity of a visited span.  \<^verbatim>\<open>_extract_hyperlinks\<close> names the element at
  index 0 with the relationship id \<open>field\<close> as \<open>field_0\<close>, and
  \<^verbatim>\<open>_extract_field_hyperlinks\<close> gives the same name to the first field hyperlink.  The
  walk marks \<open>field_0\<close> when it visits the run of the field hyperlink, and the final loop
  then passes over the empty element: its \<open><a href="http://x">Click</a>\<close> is never
  written.  With the relationship id \<open>rId1\<close> in the same paragraph it is written.
\<close>

theorem C4_identity_collision:
  "extract_hyperlinks
     \<lparr>p_style_name = ''Normal'', p_text = ''Go'', p_numPr = None,
       p_runs = [\<lparr>run_elem = 0, run_text = [], run_bold = None, run_italic = None,
                  run_underline = None\<rparr>,
                 \<lparr>run_elem = 1, run_text = [], run_bold = None, run_italic = None,
                  run_underline = None\<rparr>,
                 \<lparr>run_elem = 2, run_text = [], run_bold = None, run_italic = None,
                  run_underline = None\<rparr>,
                 \<lparr>run_elem = 3, run_text = ''Go'', run_bold = None, run_italic = None,
                  run_underline = None\<rparr>,
                 \<lparr>run_elem = 4, run_text = [], run_bold = None, run_italic = None,
                  run_underline = None\<rparr>],
       p_hyperlink_elements =
         [\<lparr>hl_r_id = Some ''field'', hl_anchor = None, hl_run_elements = [],
           hl_text = Some ''Click''\<rparr>],
       p_rels = (\<lambda>r. if r = ''field'' then Some ''http://x'' else None),
       p_all_runs =
         [\<lparr>x_elem = 0, x_fld_char_type = Some ''begin'', x_instr_text = None, x_t_texts = []\<rparr>,
          \<lparr>x_elem = 1, x_fld_char_type = None, x_instr_text = Some ''HYPERLINK \"http://y\"'',
            x_t_texts = []\<rparr>,
          \<lparr>x_elem = 2, x_fld_char_type = Some ''separate'', x_instr_text = None,
            x_t_texts = []\<rparr>,
          \<lparr>x_elem = 3, x_fld_char_type = None, x_instr_text = None, x_t_texts = [''Go'']\<rparr>,
          \<lparr>x_elem = 4, x_fld_char_type = Some ''end'', x_instr_text = None, x_t_texts = []\<rparr>]\<rparr>
     = [(''field_0'', ''http://x'', [], ''Click''), (''field_0'', ''http://y'', [3], ''Go'')]
   \<and> process_runs
     \<lparr>p_style_name = ''Normal'', p_text = ''Go'', p_numPr = None,
       p_runs = [\<lparr>run_elem = 0, run_text = [], run_bold = None, run_italic = None,
                  run_underline = None\<rparr>,
                 \<lparr>run_elem = 1, run_text = [], run_bold = None, run_italic = None,
                  run_underline = None\<rparr>,
                 \<lparr>run_elem = 2, run_text = [], run_bold = None, run_italic = None,
                  run_underline = None\<rparr>,
                 \<lparr>run_elem = 3, run_text = ''Go'', run_bold = None, run_italic = None,
                  run_underline = None\<rparr>,
                 \<lparr>run_elem = 4, run_text = [], run_bold = None, run_italic = None,
                  run_underline = None\<rparr>],
       p_hyperlink_elements =
         [\<lparr>hl_r_id = Some ''field'', hl_anchor = None, hl_run_elements = [],
           hl_text = Some ''Click''\<rparr>],
       p_rels = (\<lambda>r. if r = ''field'' then Some ''http://x'' else None),
       p_all_runs =
         [\<lparr>x_elem = 0, x_fld_char_type = Some ''begin'', x_instr_text = None, x_t_texts = []\<rparr>,
          \<lparr>x_elem = 1, x_fld_char_type = None, x_instr_text = Some ''HYPERLINK \"http://y\"'',
            x_t_texts = []\<rparr>,
          \<lparr>x_elem = 2, x_fld_char_type = Some ''separate'', x_instr_text = None,
            x_t_texts = []\<rparr>,
          \<lparr>x_elem = 3, x_fld_char_type = None, x_instr_text = None, x_t_texts = [''Go'']\<rparr>,
          \<lparr>x_elem = 4, x_fld_char_type = Some ''end'', x_instr_text = None, x_t_texts = []\<rparr>]\<rparr>
     = ''<a href=\"http://y\">Go</a>''
   \<and> process_runs
     \<lparr>p_style_name = ''Normal'', p_text = ''Go'', p_numPr = None,
       p_runs = [\<lparr>run_elem = 0, run_text = [], run_bold = None, run_italic = None,
                  run_underline = None\<rparr>,
                 \<lparr>run_elem = 1, run_text = [], run_bold = None, run_italic = None,
                  run_underline = None\<rparr>,
                 \<lparr>run_elem = 2, run_text = [], run_bold = None, run_italic = None,
                  run_underline = None\<rparr>,
                 \<lparr>run_elem = 3, run_text = ''Go'', run_bold = None, run_italic = None,
                  run_underline = None\<rparr>,
                 \<lparr>run_elem = 4, run_text = [], run_bold = None, run_italic = None,
                  run_underline = None\<rparr>],
       p_hyperlink_elements =
         [\<lparr>hl_r_id = Some ''rId1'', hl_anchor = None, hl_run_elements = [],
           hl_text = Some ''Click''\<rparr>],
       p_rels = (\<lambda>r. if r = ''rId1'' then Some ''http://x'' else None),
       p_all_runs =
         [\<lparr>x_elem = 0, x_fld_char_type = Some ''begin'', x_instr_text = None, x_t_texts = []\<rparr>,
          \<lparr>x_elem = 1, x_fld_char_type = None, x_instr_text = Some ''HYPERLINK \"http://y\"'',
            x_t_texts = []\<rparr>,
          \<lparr>x_elem = 2, x_fld_char_type = Some ''separate'', x_instr_text = None,
            x_t_texts = []\<rparr>,
          \<lparr>x_elem = 3, x_fld_char_type = None, x_instr_text = None, x_t_texts = [''Go'']\<rparr>,
          \<lparr>x_elem = 4, x_fld_char_type = Some ''end'', x_instr_text = None, x_t_texts = []\<rparr>]\<rparr>
     = ''<a href=\"http://y\">Go</a> <a href=\"http://x\">Click</a>''"
  by code_simp

subsection \<open>Field-code hyperlinks\<close>

lemma find_instruction_marker:
  "s \<le> j \<Longrightarrow> j < length all_runs \<Longrightarrow>
   x_fld_char_type (all_runs ! j) = Some ''separate'' \<or> x_fld_char_type (all_runs ! j) = Some ''end'' \<Longrightarrow>
   \<forall>k. s \<le> k \<and> k \<le> j \<longrightarrow> \<not> is_hyperlink_instr (all_runs ! k) \<Longrightarrow>
   fst (find_instruction all_runs s) = None"
proof (induction all_runs s rule: find_instruction.induct)
  case (1 all_runs s)
  have lt: "s < length all_runs" and nh: "\<not> is_hyperlink_instr (all_runs ! s)"
    using 1(2,3,5) by auto
  show ?case
  proof (cases "x_fld_char_type (all_runs ! s) = Some ''separate''
                \<or> x_fld_char_type (all_runs ! s) = Some ''end''")
    case True
    with lt nh show ?thesis
      by (subst find_instruction.simps) auto
  next
    case False
    with 1(4) have "s \<noteq> j" by auto
    with 1(2) have sj: "s + 1 \<le> j" by simp
    have "fst (find_instruction all_runs (s + 1)) = None"
      using 1(5) by (intro 1(1) lt nh False sj 1(3) 1(4)) auto
    with lt nh False show ?thesis
      by (subst find_instruction.simps) auto
  qed
qed

lemma find_instruction_no_url:
  "s \<le> j \<Longrightarrow> j < length all_runs \<Longrightarrow> is_hyperlink_instr (all_runs ! j) \<Longrightarrow>
   search_hyperlink (strip (py_format (x_instr_text (all_runs ! j)))) = None \<Longrightarrow>
   \<forall>k. s \<le> k \<and> k < j \<longrightarrow>
       \<not> is_hyperlink_instr (all_runs ! k)
       \<and> x_fld_char_type (all_runs ! k) \<noteq> Some ''separate''
       \<and> x_fld_char_type (all_runs ! k) \<noteq> Some ''end'' \<Longrightarrow>
   fst (find_instruction all_runs s) = None"
proof (induction all_runs s rule: find_instruction.induct)
  case (1 all_runs s)
  have lt: "s < length all_runs"
    using 1(2,3) by auto
  show ?case
  proof (cases "s = j")
    case True
    with lt 1(4,5) show ?thesis
      by (subst find_instruction.simps) auto
  next
    case False
    with 1(2) have sj: "s + 1 \<le> j" and slt: "s < j" by simp_all
    from 1(6) slt have nh: "\<not> is_hyperlink_instr (all_runs ! s)"
      and nm: "\<not> (x_fld_char_type (all_runs ! s) = Some ''separate''
                  \<or> x_fld_char_type (all_runs ! s) = Some ''end'')"
      by auto
    have "fst (find_instruction all_runs (s + 1)) = None"
      using 1(6) by (intro 1(1) lt nh nm sj 1(3) 1(4) 1(5)) auto
    with lt nh nm show ?thesis
      by (subst find_instruction.simps) auto
  qed
qed

lemma field_loop_prefix: "\<exists>rest. field_loop all_runs i field_idx hyperlinks = hyperlinks @ rest"
proof (induction all_runs i field_idx hyperlinks rule: field_loop.induct)
  case (1 all_runs i field_idx hyperlinks)
  show ?case
    apply (subst field_loop.simps)
    using 1 by (auto split: if_splits)
qed

text \<open>
  Claim C3 as stated fails: a run with another instruction text (here \<open>PAGE\<close>) between
  the begin marker and the run with the \<open>HYPERLINK\<close> instruction does not end the scan
  of the field; the scan passes over it and the field gives its span.
\<close>

theorem C3_field_counterexample:
  "extract_field_hyperlinks
     [\<lparr>x_elem = 0, x_fld_char_type = Some ''begin'', x_instr_text = None, x_t_texts = []\<rparr>,
      \<lparr>x_elem = 1, x_fld_char_type = None, x_instr_text = Some ''PAGE'', x_t_texts = []\<rparr>,
      \<lparr>x_elem = 2, x_fld_char_type = None, x_instr_text = Some '' HYPERLINK \"http://y\" '',
        x_t_texts = []\<rparr>,
      \<lparr>x_elem = 3, x_fld_char_type = Some ''separate'', x_instr_text = None, x_t_texts = []\<rparr>,
      \<lparr>x_elem = 4, x_fld_char_type = None, x_instr_text = None, x_t_texts = [''Go'']\<rparr>,
      \<lparr>x_elem = 5, x_fld_char_type = Some ''end'', x_instr_text = None, x_t_texts = []\<rparr>]
   = [(''field_0'', ''http://y'', [4], ''Go'')]"
  by code_simp

text \<open>
  Claim C3, amended.  At a begin marker, a field for which the first loop finds no URL
  gives no span and the scan goes on at the run after the begin marker; this is so when
  the scan meets a separate or end marker before any run whose instruction text starts
  with \<open>HYPERLINK\<close> (runs with other instruction text are passed over), and when the
  first such run has no quoted URL.  A field with a URL but without member runs gives no
  span either, and the scan goes on after the index where the collection of members
  stopped.  The extraction is a total function, and the spans found before the field
  stay in the result.
\<close>

theorem C3_field_dropped:
  "(i < length all_runs \<and> x_fld_char_type (all_runs ! i) = Some ''begin'' \<longrightarrow>
      (\<not> str_truthy (field_url all_runs i) \<longrightarrow>
         field_loop all_runs i field_idx hyperlinks
           = field_loop all_runs (i + 1) field_idx hyperlinks)
      \<and> (str_truthy (field_url all_runs i) \<and> fst (field_members all_runs i) = [] \<longrightarrow>
         field_loop all_runs i field_idx hyperlinks
           = field_loop all_runs (snd (field_members all_runs i) + 1) field_idx hyperlinks))
   \<and> (i < j \<and> j < length all_runs
        \<and> (x_fld_char_type (all_runs ! j) = Some ''separate''
             \<or> x_fld_char_type (all_runs ! j) = Some ''end'')
        \<and> (\<forall>k. i < k \<and> k \<le> j \<longrightarrow> \<not> is_hyperlink_instr (all_runs ! k)) \<longrightarrow>
        field_url all_runs i = None)
   \<and> (i < j \<and> j < length all_runs \<and> is_hyperlink_instr (all_runs ! j)
        \<and> search_hyperlink (strip (py_format (x_instr_text (all_runs ! j)))) = None
        \<and> (\<forall>k. i < k \<and> k < j \<longrightarrow>
               \<not> is_hyperlink_instr (all_runs ! k)
               \<and> x_fld_char_type (all_runs ! k) \<noteq> Some ''separate''
               \<and> x_fld_char_type (all_runs ! k) \<noteq> Some ''end'') \<longrightarrow>
        field_url all_runs i = None)
   \<and> (\<exists>rest. field_loop all_runs i field_idx hyperlinks = hyperlinks @ rest)"
proof (intro conjI impI)
  assume a: "i < length all_runs \<and> x_fld_char_type (all_runs ! i) = Some ''begin''"
    and b: "\<not> str_truthy (field_url all_runs i)"
  then show "field_loop all_runs i field_idx hyperlinks
           = field_loop all_runs (i + 1) field_idx hyperlinks"
    by (subst field_loop.simps) simp
next
  assume a: "i < length all_runs \<and> x_fld_char_type (all_runs ! i) = Some ''begin''"
    and b: "str_truthy (field_url all_runs i) \<and> fst (field_members all_runs i) = []"
  then show "field_loop all_runs i field_idx hyperlinks
           = field_loop all_runs (snd (field_members all_runs i) + 1) field_idx hyperlinks"
    by (subst field_loop.simps) simp
next
  assume a: "i < j \<and> j < length all_runs
        \<and> (x_fld_char_type (all_runs ! j) = Some ''separate''
             \<or> x_fld_char_type (all_runs ! j) = Some ''end'')
        \<and> (\<forall>k. i < k \<and> k \<le> j \<longrightarrow> \<not> is_hyperlink_instr (all_runs ! k))"
  then have "fst (find_instruction all_runs (i + 1)) = None"
    by (intro find_instruction_marker [where j = j]) auto
  then show "field_url all_runs i = None"
    by (simp add: field_url_def)
next
  assume a: "i < j \<and> j < length all_runs \<and> is_hyperlink_instr (all_runs ! j)
        \<and> search_hyperlink (strip (py_format (x_instr_text (all_runs ! j)))) = None
        \<and> (\<forall>k. i < k \<and> k < j \<longrightarrow>
               \<not> is_hyperlink_instr (all_runs ! k)
               \<and> x_fld_char_type (all_runs ! k) \<noteq> Some ''separate''
               \<and> x_fld_char_type (all_runs ! k) \<noteq> Some ''end'')"
  then have "fst (find_instruction all_runs (i + 1)) = None"
    by (intro find_instruction_no_url [where j = j]) auto
  then show "field_url all_runs i = None"
    by (simp add: field_url_def)
next
  show "\<exists>rest. field_loop all_runs i field_idx hyperlinks = hyperlinks @ rest"
    by (rule field_loop_prefix)
qed

lemmas field_defs =
  extract_field_hyperlinks_def field_loop.simps field_url_def field_members_def
  find_instruction.simps skip_separator.simps collect_link_runs.simps field_span_def
  is_hyperlink_instr_def match_hyperlink_def str_truthy_def py_format_def strip_def
  is_space_def show_nat.simps

text \<open>
  The amended C3 at a paragraph with two fields: the first has a separate marker and no
  instruction, the second has a \<open>HYPERLINK\<close> instruction but its end marker follows the
  separate marker at once.  Neither gives a span.
\<close>

theorem C3_field_dropped_witness:
  "(0::nat) < length
      [\<lparr>x_elem = 0, x_fld_char_type = Some ''begin'', x_instr_text = None, x_t_texts = []\<rparr>,
       \<lparr>x_elem = 1, x_fld_char_type = Some ''separate'', x_instr_text = None, x_t_texts = []\<rparr>,
       \<lparr>x_elem = 2, x_fld_char_type = None, x_instr_text = None, x_t_texts = [''x'']\<rparr>,
       \<lparr>x_elem = 3, x_fld_char_type = Some ''end'', x_instr_text = None, x_t_texts = []\<rparr>,
       \<lparr>x_elem = 4, x_fld_char_type = Some ''begin'', x_instr_text = None, x_t_texts = []\<rparr>,
       \<lparr>x_elem = 5, x_fld_char_type = None, x_instr_text = Some ''HYPERLINK \"http://y\"'',
         x_t_texts = []\<rparr>,
       \<lparr>x_elem = 6, x_fld_char_type = Some ''separate'', x_instr_text = None, x_t_texts = []\<rparr>,
       \<lparr>x_elem = 7, x_fld_char_type = Some ''end'', x_instr_text = None, x_t_texts = []\<rparr>]
   \<and> extract_field_hyperlinks
      [\<lparr>x_elem = 0, x_fld_char_type = Some ''begin'', x_instr_text = None, x_t_texts = []\<rparr>,
       \<lparr>x_elem = 1, x_fld_char_type = Some ''separate'', x_instr_text = None, x_t_texts = []\<rparr>,
       \<lparr>x_elem = 2, x_fld_char_type = None, x_instr_text = None, x_t_texts = [''x'']\<rparr>,
       \<lparr>x_elem = 3, x_fld_char_type = Some ''end'', x_instr_text = None, x_t_texts = []\<rparr>,
       \<lparr>x_elem = 4, x_fld_char_type = Some ''begin'', x_instr_text = None, x_t_texts = []\<rparr>,
       \<lparr>x_elem = 5, x_fld_char_type = None, x_instr_text = Some ''HYPERLINK \"http://y\"'',
         x_t_texts = []\<rparr>,
       \<lparr>x_elem = 6, x_fld_char_type = Some ''separate'', x_instr_text = None, x_t_texts = []\<rparr>,
       \<lparr>x_elem = 7, x_fld_char_type = Some ''end'', x_instr_text = None, x_t_texts = []\<rparr>]
     = []"
proof -
  let ?R = "[\<lparr>x_elem = 0, x_fld_char_type = Some ''begin'', x_instr_text = None, x_t_texts = []\<rparr>,
       \<lparr>x_elem = 1, x_fld_char_type = Some ''separate'', x_instr_text = None, x_t_texts = []\<rparr>,
       \<lparr>x_elem = 2, x_fld_char_type = None, x_instr_text = None, x_t_texts = [''x'']\<rparr>,
       \<lparr>x_elem = 3, x_fld_char_type = Some ''end'', x_instr_text = None, x_t_texts = []\<rparr>,
       \<lparr>x_elem = 4, x_fld_char_type = Some ''begin'', x_instr_text = None, x_t_texts = []\<rparr>,
       \<lparr>x_elem = 5, x_fld_char_type = None, x_instr_text = Some ''HYPERLINK \"http://y\"'',
         x_t_texts = []\<rparr>,
       \<lparr>x_elem = 6, x_fld_char_type = Some ''separate'', x_instr_text = None, x_t_texts = []\<rparr>,
       \<lparr>x_elem = 7, x_fld_char_type = Some ''end'', x_instr_text = None, x_t_texts = []\<rparr>]"
  have b0: "(0::nat) < length ?R \<and> x_fld_char_type (?R ! 0) = Some ''begin''"
    by simp
  have m0: "(0::nat) < 1 \<and> 1 < length ?R
        \<and> (x_fld_char_type (?R ! 1) = Some ''separate'' \<or> x_fld_char_type (?R ! 1) = Some ''end'')
        \<and> (\<forall>k. 0 < k \<and> k \<le> 1 \<longrightarrow> \<not> is_hyperlink_instr (?R ! k))"
    by (auto simp: is_hyperlink_instr_def le_Suc_eq)
  note t0 = C3_field_dropped [of 0 ?R 0 "[]" 1]
  have u0: "field_url ?R 0 = None"
    by (rule mp [OF t0 [THEN conjunct2, THEN conjunct1] m0])
  then have n0: "\<not> str_truthy (field_url ?R 0)"
    by (simp add: str_truthy_def)
  have s0: "field_loop ?R 0 0 [] = field_loop ?R (0 + 1) 0 []"
    by (rule mp [OF mp [OF t0 [THEN conjunct1] b0, THEN conjunct1] n0])
  have b4: "(4::nat) < length ?R \<and> x_fld_char_type (?R ! 4) = Some ''begin''"
    by simp
  have m4: "str_truthy (field_url ?R 4) \<and> fst (field_members ?R 4) = []"
    by (simp add: field_defs)
  have e4: "snd (field_members ?R 4) = 7"
    by (simp add: field_defs)
  note t4 = C3_field_dropped [of 4 ?R 0 "[]" 5]
  have s4: "field_loop ?R 4 0 [] = field_loop ?R (snd (field_members ?R 4) + 1) 0 []"
    by (rule mp [OF mp [OF t4 [THEN conjunct1] b4, THEN conjunct2] m4])
  have r1: "field_loop ?R (0 + 1) 0 [] = field_loop ?R 4 0 []"
    by code_simp
  have r8: "field_loop ?R (7 + 1) 0 [] = []"
    by code_simp
  have "extract_field_hyperlinks ?R = []"
    unfolding extract_field_hyperlinks_def s0 r1 s4 e4 r8 ..
  with b0 show ?thesis by simp
qed

subsection \<open>Well-nested output\<close>




lemma neutral_Nil [simp]: "neutral []"
  by (simp add: neutral_def)





































end
